theory Spec2Isabelle
  imports Complex_Main
begin

section \<open>Numbers\<close>

text \<open>
  The C++ code computes with \<^verbatim>\<open>double\<close> and \<^verbatim>\<open>float\<close>. Both are embedded in one
  type: a finite value, the two infinities, or NaN. Finite values are carried as reals, so
  rounding and overflow of the finite range are not modelled; the comparisons, the
  classification (\<^verbatim>\<open>isnan\<close>), division by zero and the propagation of NaN and of the
  infinities follow IEEE 754. None of the properties below depends on a rounded digit.
\<close>

datatype double = Fin real | PInf | NInf | NaN

definition isnan :: "double \<Rightarrow> bool" where
  "isnan d = (case d of NaN \<Rightarrow> True | _ \<Rightarrow> False)"

definition isfinite :: "double \<Rightarrow> bool" where
  "isfinite d = (case d of Fin r \<Rightarrow> True | _ \<Rightarrow> False)"

text \<open>\<^verbatim>\<open>a < b\<close>: false as soon as one side is NaN.\<close>

definition dlt :: "double \<Rightarrow> double \<Rightarrow> bool" where
  "dlt a b =
     (case a of
        NaN \<Rightarrow> False
      | NInf \<Rightarrow> (case b of NaN \<Rightarrow> False | NInf \<Rightarrow> False | _ \<Rightarrow> True)
      | Fin x \<Rightarrow> (case b of Fin y \<Rightarrow> x < y | PInf \<Rightarrow> True | _ \<Rightarrow> False)
      | PInf \<Rightarrow> False)"

text \<open>\<^verbatim>\<open>a == b\<close>: NaN equals nothing, itself included.\<close>

definition deq :: "double \<Rightarrow> double \<Rightarrow> bool" where
  "deq a b = (\<not> isnan a \<and> \<not> isnan b \<and> a = b)"

definition dle :: "double \<Rightarrow> double \<Rightarrow> bool" where
  "dle a b = (dlt a b \<or> deq a b)"

definition dgt :: "double \<Rightarrow> double \<Rightarrow> bool" where
  "dgt a b = dlt b a"

definition dge :: "double \<Rightarrow> double \<Rightarrow> bool" where
  "dge a b = dle b a"

definition dne :: "double \<Rightarrow> double \<Rightarrow> bool" where
  "dne a b = (\<not> deq a b)"

text \<open>\<^verbatim>\<open>std::min(a, b)\<close> is \<^verbatim>\<open>(b < a) ? b : a\<close> and \<^verbatim>\<open>std::max(a, b)\<close> is
  \<^verbatim>\<open>(a < b) ? b : a\<close>.\<close>

definition std_min :: "double \<Rightarrow> double \<Rightarrow> double" where
  "std_min a b = (if dlt b a then b else a)"

definition std_max :: "double \<Rightarrow> double \<Rightarrow> double" where
  "std_max a b = (if dlt a b then b else a)"

definition of_int_d :: "int \<Rightarrow> double" where
  "of_int_d k = Fin (of_int k)"

definition INT_MIN :: int where
  "INT_MIN = - 2147483648"

definition INT_MAX :: int where
  "INT_MAX = 2147483647"

text \<open>
  \<^verbatim>\<open>(int)d\<close> truncates towards zero. The conversion of NaN, of an infinity or of a
  value whose truncation does not fit an \<^verbatim>\<open>int\<close> is undefined in C++: \<open>None\<close>.
\<close>

definition trunc_real :: "real \<Rightarrow> int" where
  "trunc_real r = (if 0 \<le> r then \<lfloor>r\<rfloor> else \<lceil>r\<rceil>)"

definition d2i :: "double \<Rightarrow> int option" where
  "d2i d =
     (case d of
        Fin r \<Rightarrow>
          (if INT_MIN \<le> trunc_real r \<and> trunc_real r \<le> INT_MAX then Some (trunc_real r)
           else None)
      | _ \<Rightarrow> None)"

definition FLT_MAX :: double where
  "FLT_MAX = Fin ((2 ^ 24 - 1) * 2 ^ 104)"

definition DBL_MAX :: double where
  "DBL_MAX = Fin ((2 ^ 53 - 1) * 2 ^ 971)"

section \<open>Faults\<close>

text \<open>
  What a call can do instead of returning a value. \<open>ClassifierNotTrainedException\<close> is the
  exception of the code. The others stand for behaviour the C++ standard leaves undefined
  (a read outside an array or a vector, a floating value converted to an \<^verbatim>\<open>int\<close> that
  cannot hold it), for an exception of \<^verbatim>\<open>cv::Mat::create\<close> on a negative size, and for a
  loop that does not end.
\<close>

datatype fault =
    ClassifierNotTrainedException
  | OutOfBounds
  | FloatToIntUndefined
  | CvException
  | LoopDiverges

section \<open>The SVM hand classifier (HandClassifier.cpp)\<close>

text \<open>
  \<open>svm\<close> is the array \<^verbatim>\<open>svm[NUM_SVMS]\<close>; a model is given by its \<^verbatim>\<open>predict\<close>, a
  function of the sample row (OpenCV, outside the repository; the narrowing of the sample to
  \<^verbatim>\<open>float\<close> is part of it). \<^verbatim>\<open>NUM_SVMS\<close> is the length of the array. \<^verbatim>\<open>MAX_FEATURES\<close>
  is a constant of HandClassifier.h, which is not among the sources: a parameter.
\<close>

record SVMHandClassifier =
  trained :: bool
  svm :: "(double list \<Rightarrow> double) list"
  MAX_FEATURES :: int

definition isTrained :: "SVMHandClassifier \<Rightarrow> bool" where
  "isTrained c = trained c"

definition NUM_SVMS :: "SVMHandClassifier \<Rightarrow> int" where
  "NUM_SVMS c = int (length (svm c))"

text \<open>\<^verbatim>\<open>getSVMIdx(int num_fingers)\<close>\<close>

definition getSVMIdx :: "SVMHandClassifier \<Rightarrow> int \<Rightarrow> int" where
  "getSVMIdx c num_fingers = min (num_fingers - 1) (NUM_SVMS c - 1)"

text \<open>\<^verbatim>\<open>SVMHandClassifier::classify\<close>\<close>

definition classify :: "SVMHandClassifier \<Rightarrow> double list \<Rightarrow> fault + double" where
  "classify c features =
     (if \<not> trained c then Inl ClassifierNotTrainedException
      else if length features = 0 then Inr (Fin 0)
      else
        let nFeat = (if int (length features) > MAX_FEATURES c then MAX_FEATURES c
                     else int (length features))
        in case d2i (features ! 0) of
             None \<Rightarrow> Inl FloatToIntUndefined
           | Some num_fingers \<Rightarrow>
               if nFeat - 1 < 0 then Inl CvException
               else
                 let svmIdx = getSVMIdx c num_fingers;
                     samples = map (\<lambda>i. features ! i) [1..<nat nFeat]
                 in if svmIdx < 0 then Inl OutOfBounds
                    else
                      let result = (svm c ! nat svmIdx) samples
                      in Inr (std_max (std_min (Fin 1) result) (Fin 0)))"

text \<open>A trained classifier of four constant models, for the closed instances below.\<close>

definition constClassifier :: "real \<Rightarrow> SVMHandClassifier" where
  "constClassifier r =
     \<lparr> trained = True, svm = replicate 4 (\<lambda>samples. Fin r), MAX_FEATURES = 57 \<rparr>"

definition untrainedClassifier :: SVMHandClassifier where
  "untrainedClassifier = \<lparr> trained = False, svm = [], MAX_FEATURES = 57 \<rparr>"

section \<open>Arithmetic on floating values\<close>

definition dneg :: "double \<Rightarrow> double" where
  "dneg a = (case a of Fin x \<Rightarrow> Fin (- x) | PInf \<Rightarrow> NInf | NInf \<Rightarrow> PInf | NaN \<Rightarrow> NaN)"

definition dadd :: "double \<Rightarrow> double \<Rightarrow> double" where
  "dadd a b =
     (case a of
        NaN \<Rightarrow> NaN
      | Fin x \<Rightarrow> (case b of Fin y \<Rightarrow> Fin (x + y) | _ \<Rightarrow> b)
      | PInf \<Rightarrow> (case b of NaN \<Rightarrow> NaN | NInf \<Rightarrow> NaN | _ \<Rightarrow> PInf)
      | NInf \<Rightarrow> (case b of NaN \<Rightarrow> NaN | PInf \<Rightarrow> NaN | _ \<Rightarrow> NInf))"

definition dsub :: "double \<Rightarrow> double \<Rightarrow> double" where
  "dsub a b = dadd a (dneg b)"

text \<open>The sign of a value that is not NaN: \<open>-1\<close>, \<open>0\<close> or \<open>1\<close>.\<close>

definition dsgn :: "double \<Rightarrow> int" where
  "dsgn a =
     (case a of
        Fin x \<Rightarrow> (if x < 0 then - 1 else if x = 0 then 0 else 1)
      | PInf \<Rightarrow> 1
      | NInf \<Rightarrow> - 1
      | NaN \<Rightarrow> 0)"

definition dinf :: "int \<Rightarrow> double" where
  "dinf s = (if s = 0 then NaN else if 0 < s then PInf else NInf)"

definition dmul :: "double \<Rightarrow> double \<Rightarrow> double" where
  "dmul a b =
     (if isnan a \<or> isnan b then NaN
      else case a of
             Fin x \<Rightarrow> (case b of Fin y \<Rightarrow> Fin (x * y) | _ \<Rightarrow> dinf (dsgn a * dsgn b))
           | _ \<Rightarrow> dinf (dsgn a * dsgn b))"

text \<open>A finite zero divisor is taken as \<open>+0\<close>: the divisors of the code that can be zero
  are absolute values, areas and lengths.\<close>

definition ddiv :: "double \<Rightarrow> double \<Rightarrow> double" where
  "ddiv a b =
     (if isnan a \<or> isnan b then NaN
      else case b of
             Fin y \<Rightarrow>
               (case a of
                  Fin x \<Rightarrow> (if y = 0 then dinf (dsgn a) else Fin (x / y))
                | _ \<Rightarrow> (if y < 0 then dneg a else a))
           | _ \<Rightarrow> (case a of Fin x \<Rightarrow> Fin 0 | _ \<Rightarrow> NaN))"

definition dsqrt :: "double \<Rightarrow> double" where
  "dsqrt a =
     (case a of
        Fin x \<Rightarrow> (if x < 0 then NaN else Fin (sqrt x))
      | PInf \<Rightarrow> PInf
      | _ \<Rightarrow> NaN)"

definition PI :: double where
  "PI = Fin pi"

section \<open>Geometry types (OpenCV)\<close>

datatype Point2i = Point2i (pt_x: int) (pt_y: int)

datatype Vec3f = Vec3f (v0: double) (v1: double) (v2: double)

text \<open>A convexity defect: start index, end index, index of the farthest point, depth.\<close>

datatype Vec4i = Vec4i (d0: int) (d1: int) (d2: int) (d3: int)

datatype Size = Size (size_width: int) (size_height: int)

datatype Rect = Rect (rect_x: int) (rect_y: int) (rect_width: int) (rect_height: int)

definition pt_add :: "Point2i \<Rightarrow> Point2i \<Rightarrow> Point2i" where
  "pt_add a b = Point2i (pt_x a + pt_x b) (pt_y a + pt_y b)"

definition pt_sub :: "Point2i \<Rightarrow> Point2i \<Rightarrow> Point2i" where
  "pt_sub a b = Point2i (pt_x a - pt_x b) (pt_y a - pt_y b)"

definition vec_add :: "Vec3f \<Rightarrow> Vec3f \<Rightarrow> Vec3f" where
  "vec_add a b = Vec3f (dadd (v0 a) (v0 b)) (dadd (v1 a) (v1 b)) (dadd (v2 a) (v2 b))"

definition vec_sub :: "Vec3f \<Rightarrow> Vec3f \<Rightarrow> Vec3f" where
  "vec_sub a b = Vec3f (dsub (v0 a) (v0 b)) (dsub (v1 a) (v1 b)) (dsub (v2 a) (v2 b))"

definition vec_div :: "Vec3f \<Rightarrow> double \<Rightarrow> Vec3f" where
  "vec_div a s = Vec3f (ddiv (v0 a) s) (ddiv (v1 a) s) (ddiv (v2 a) s)"

text \<open>A depth window (\<^verbatim>\<open>cv::Mat\<close> of \<^verbatim>\<open>Vec3f\<close>): its size and its samples by row and
  column.\<close>

record Mat =
  rows :: int
  cols :: int
  mat_at :: "int \<Rightarrow> int \<Rightarrow> Vec3f"

section \<open>Parameters (ObjectParams)\<close>

text \<open>The fields that Hand.cpp reads, with their types in the class.\<close>

record ObjectParams =
  xyzAverageSize :: int
  bottomEdgeThresh :: int
  sideEdgeThresh :: int
  handMinArea :: double
  handMaxArea :: double
  handRequireEdgeConnected :: bool
  handEdgeConnectMaxY :: double
  handUseSVM :: bool
  handSVMConfidenceThresh :: double
  centerMaxDistFromTop :: double
  contactBotEdgeThresh :: int
  contactSideEdgeThresh :: int
  wristWidthMin :: double
  wristWidthMax :: double
  wristCenterDistThresh :: double
  fingerLenMin :: double
  fingerLenMax :: double
  fingerDistMin :: double
  fingerDefectSlopeMin :: double
  fingerCenterSlopeMin :: double
  fingerCurveNearMin :: double
  fingerCurveNearMax :: double
  fingerCurveFarMin :: double
  fingerCurveFarMax :: double
  singleFingerLenMin :: double
  singleFingerLenMax :: double
  singleFingerAngleThresh :: double
  defectMaxAngle :: double
  defectMinDist :: double
  defectFarCenterMinDist :: double
  defectFarCenterMaxDist :: double
  defectStartEndMinDist :: double
  defectMaxYFromCenter :: int
  centroidDefectFingerAngleMin :: double

text \<open>The default values of the class.\<close>

definition DEFAULT :: ObjectParams where
  "DEFAULT =
     \<lparr> xyzAverageSize = 9,
       bottomEdgeThresh = 10,
       sideEdgeThresh = 10,
       handMinArea = Fin (1 / 100),
       handMaxArea = Fin (56 / 1000),
       handRequireEdgeConnected = False,
       handEdgeConnectMaxY = Fin (1 / 2),
       handUseSVM = True,
       handSVMConfidenceThresh = Fin (45 / 100),
       centerMaxDistFromTop = Fin (155 / 1000),
       contactBotEdgeThresh = 8,
       contactSideEdgeThresh = 25,
       wristWidthMin = Fin (30 / 1000),
       wristWidthMax = Fin (85 / 1000),
       wristCenterDistThresh = Fin (75 / 1000),
       fingerLenMin = Fin (14 / 1000),
       fingerLenMax = Fin (125 / 1000),
       fingerDistMin = Fin (1 / 100),
       fingerDefectSlopeMin = Fin (- 1),
       fingerCenterSlopeMin = Fin (- 45 / 100),
       fingerCurveNearMin = Fin (95 / 100),
       fingerCurveNearMax = Fin (280 / 100),
       fingerCurveFarMin = Fin (5 / 100),
       fingerCurveFarMax = Fin (120 / 100),
       singleFingerLenMin = Fin (4 / 100),
       singleFingerLenMax = Fin (11 / 100),
       singleFingerAngleThresh = Fin (8 / 100),
       defectMaxAngle = Fin (70 / 100 * pi),
       defectMinDist = Fin (2 / 100),
       defectFarCenterMinDist = Fin (1 / 100),
       defectFarCenterMaxDist = Fin (105 / 1000),
       defectStartEndMinDist = Fin (1 / 100),
       defectMaxYFromCenter = 30,
       centroidDefectFingerAngleMin = Fin (40 / 100 * pi) \<rparr>"

section \<open>External collaborators\<close>

text \<open>
  Hand.cpp and HandClassifier.cpp call into Util, FrameObject and OpenCV, none of which is
  among the sources. Their functions are parameters of the model, one field each, under
  the name and with the arguments of the call; an argument left to its default value is
  \<open>None\<close>. \<open>getConvexHull\<close> gives the hull points and their contour indices
  (\<^verbatim>\<open>convexHull\<close>, \<^verbatim>\<open>indexHull\<close>), \<open>largestInscribedCircle\<close> the centre and the radius,
  \<open>diameter\<close> the diameter and the two indices it writes. \<open>sortDefects\<close> is
  \<^verbatim>\<open>std::sort\<close> under the given comparator. \<open>PLANE_ENABLED\<close> is the build flag of
  version.h. \<open>indeterminate\<close> is the value an uninitialised \<^verbatim>\<open>int\<close> happens to hold.
  \<open>handClassifier\<close> is the process-wide classifier \<^verbatim>\<open>Hand::handClassifier\<close>.
\<close>

record extern =
  computeContour :: "Mat \<Rightarrow> Point2i list \<Rightarrow> Vec3f list \<Rightarrow> Point2i \<Rightarrow> int \<Rightarrow> Point2i list"
  getConvexHull :: "Point2i list \<Rightarrow> Point2i list \<times> int list"
  convexityDefects :: "Point2i list \<Rightarrow> int list \<Rightarrow> Vec4i list"
  findCenter :: "Point2i list \<Rightarrow> Point2i"
  nearestPointOnCluster :: "Mat \<Rightarrow> Point2i \<Rightarrow> int option \<Rightarrow> Point2i"
  averageAroundPoint :: "Mat \<Rightarrow> Point2i \<Rightarrow> int option \<Rightarrow> Vec3f"
  largestInscribedCircle ::
    "Point2i list \<Rightarrow> Mat \<Rightarrow> Rect \<Rightarrow> Vec3f \<Rightarrow> double \<Rightarrow> Point2i \<times> double"
  pointOnEdge :: "Size \<Rightarrow> Point2i \<Rightarrow> int \<Rightarrow> int \<Rightarrow> bool"
  pointInImage :: "Mat \<Rightarrow> Point2i \<Rightarrow> bool"
  euclideanDistance :: "Vec3f \<Rightarrow> Vec3f \<Rightarrow> double"
  pointToSlope :: "Point2i \<Rightarrow> double"
  pointToAngle :: "Point2i \<Rightarrow> double"
  angleBetweenPoints :: "Point2i \<Rightarrow> Point2i \<Rightarrow> Point2i \<Rightarrow> double"
  angleBetween3DVec :: "Vec3f \<Rightarrow> Vec3f \<Rightarrow> Vec3f \<Rightarrow> double"
  contourCurvature :: "Point2i list \<Rightarrow> int \<Rightarrow> int \<Rightarrow> int \<Rightarrow> double"
  contourArea :: "Point2i list \<Rightarrow> double"
  arcLength :: "Point2i list \<Rightarrow> bool \<Rightarrow> double"
  diameter :: "Point2i list \<Rightarrow> double \<times> int \<times> int"
  sortDefects :: "(Vec4i \<Rightarrow> Vec4i \<Rightarrow> bool) \<Rightarrow> Vec4i list \<Rightarrow> Vec4i list"
  PLANE_ENABLED :: bool
  indeterminate :: int
  handClassifier :: SVMHandClassifier

section \<open>The hand object (Hand, FrameObject)\<close>

text \<open>
  The attributes of a \<^verbatim>\<open>Hand\<close> that the two source files read or write. The first group
  is what the constructor receives (\<^verbatim>\<open>FrameObject\<close>), the second what the evaluation
  computes.
\<close>

record Hand =
  points :: "Point2i list"
  points_xyz :: "Vec3f list"
  num_points :: int
  xyzMap :: Mat
  topLeftPt :: Point2i
  fullMapSize :: Size
  boundingBox :: Rect
  params :: ObjectParams
  surfaceArea :: double
  leftEdgeConnected :: bool
  rightEdgeConnected :: bool
  contour :: "Point2i list"
  convexHull :: "Point2i list"
  indexHull :: "int list"
  palmCenterIJ :: Point2i
  palmCenterXYZ :: Vec3f
  circleRadius :: double
  wristXYZ :: "Vec3f list"
  wristIJ :: "Point2i list"
  fingersIJ :: "Point2i list"
  fingersXYZ :: "Vec3f list"
  defectsIJ :: "Point2i list"
  defectsXYZ :: "Vec3f list"
  isHand :: bool
  svmConfidence :: double

text \<open>\<^verbatim>\<open>Hand::getNumFingers\<close>\<close>

definition getNumFingers :: "Hand \<Rightarrow> int" where
  "getNumFingers h = int (length (fingersXYZ h))"

text \<open>\<^verbatim>\<open>Hand::touchingEdge\<close>\<close>

definition touchingEdge :: "Hand \<Rightarrow> bool" where
  "touchingEdge h = (leftEdgeConnected h \<or> rightEdgeConnected h)"

section \<open>Feature extraction (HandClassifier.cpp)\<close>

text \<open>\<^verbatim>\<open>HandClassifier::computeMeanAndVariance\<close>; the result is
  \<open>(avg_dist, var_dist, avg_depth, var_depth)\<close>.\<close>

definition radialDist :: "Vec3f \<Rightarrow> Vec3f \<Rightarrow> double" where
  "radialDist pt center =
     dsqrt (dadd (dmul (dsub (v0 pt) (v0 center)) (dsub (v0 pt) (v0 center)))
                 (dmul (dsub (v1 pt) (v1 center)) (dsub (v1 pt) (v1 center))))"

definition computeMeanAndVariance ::
  "Vec3f list \<Rightarrow> Vec3f \<Rightarrow> double \<times> double \<times> double \<times> double" where
  "computeMeanAndVariance pts center =
     (let sum_dist = foldl (\<lambda>acc pt. dadd acc (radialDist pt center)) (Fin 0) pts;
          sum_depth = foldl (\<lambda>acc pt. dadd acc (v2 pt)) (Fin 0) pts;
          totalpts = int (length pts)
      in if totalpts = 0 then (Fin 1, Fin 0, Fin 1, Fin 0)
         else
           let avg_dist = ddiv sum_dist (of_int_d totalpts);
               avg_depth = ddiv sum_depth (of_int_d totalpts);
               var_dist =
                 foldl (\<lambda>acc pt. dadd acc (dmul (dsub (radialDist pt center) avg_dist)
                                              (dsub (radialDist pt center) avg_dist)))
                   (Fin 0) pts;
               var_depth =
                 foldl (\<lambda>acc pt. dadd acc (dmul (dsub (v2 pt) avg_depth)
                                              (dsub (v2 pt) avg_depth)))
                   (Fin 0) pts
           in (avg_dist, ddiv var_dist (of_int_d totalpts),
               avg_depth, ddiv var_depth (of_int_d totalpts)))"

text \<open>
  The first loop over the fingers: the pairs \<^verbatim>\<open>(finger_len, i)\<close> pushed to
  \<^verbatim>\<open>fingerOrder\<close>.
\<close>

definition fingerLengths :: "extern \<Rightarrow> Hand \<Rightarrow> (double \<times> int) list" where
  "fingerLengths U hand =
     map (\<lambda>i. (euclideanDistance U (fingersXYZ hand ! i) (defectsXYZ hand ! i), int i))
       [0..<length (fingersXYZ hand)]"

text \<open>
  \<^verbatim>\<open>std::sort(fingerOrder.begin(), fingerOrder.end(), std::greater<std::pair<int, int> >())\<close>.
  The elements are \<^verbatim>\<open>std::pair<double, int>\<close>; the comparator takes
  \<^verbatim>\<open>std::pair<int, int>\<close>, so each element it compares is first converted, the length
  by \<^verbatim>\<open>(int)\<close>. \<open>pair_less\<close> is \<^verbatim>\<open>operator<\<close> of \<^verbatim>\<open>std::pair\<close>, \<open>pair_greater\<close> is
  \<^verbatim>\<open>std::greater\<close>. The indices are distinct, so the converted pairs are totally
  ordered and every sorting algorithm gives the same list; \<open>std_sort\<close> is insertion sort.
  A sort of fewer than two elements compares nothing and converts nothing.
\<close>

definition pair_less :: "int \<times> int \<Rightarrow> int \<times> int \<Rightarrow> bool" where
  "pair_less a b = (fst a < fst b \<or> (\<not> fst b < fst a \<and> snd a < snd b))"

definition pair_greater :: "int \<times> int \<Rightarrow> int \<times> int \<Rightarrow> bool" where
  "pair_greater a b = pair_less b a"

definition to_int_pair :: "double \<times> int \<Rightarrow> int \<times> int" where
  "to_int_pair p = (the (d2i (fst p)), snd p)"

fun insert_sorted :: "('a \<Rightarrow> 'a \<Rightarrow> bool) \<Rightarrow> 'a \<Rightarrow> 'a list \<Rightarrow> 'a list" where
  "insert_sorted cmp x [] = [x]"
| "insert_sorted cmp x (y # ys) =
     (if cmp x y then x # y # ys else y # insert_sorted cmp x ys)"

definition std_sort :: "('a \<Rightarrow> 'a \<Rightarrow> bool) \<Rightarrow> 'a list \<Rightarrow> 'a list" where
  "std_sort cmp xs = foldl (\<lambda>acc x. insert_sorted cmp x acc) [] xs"

definition sortFingerOrder :: "(double \<times> int) list \<Rightarrow> (double \<times> int) list option" where
  "sortFingerOrder fingerOrder =
     (if length fingerOrder < 2 then Some fingerOrder
      else if list_all (\<lambda>p. d2i (fst p) \<noteq> None) fingerOrder
      then Some (std_sort (\<lambda>a b. pair_greater (to_int_pair a) (to_int_pair b)) fingerOrder)
      else None)"

text \<open>The inner loop over \<^verbatim>\<open>jj\<close>: the state is
  \<open>(minDistDefect, minDistFinger, maxDistDefect, maxDistFinger)\<close>.\<close>

definition neighbourStep ::
  "extern \<Rightarrow> Vec3f list \<Rightarrow> Vec3f list \<Rightarrow> nat \<Rightarrow>
   double \<times> double \<times> double \<times> double \<Rightarrow> nat \<Rightarrow> double \<times> double \<times> double \<times> double" where
  "neighbourStep U fingers defects j st jj =
     (case st of (minDistDefect, minDistFinger, maxDistDefect, maxDistFinger) \<Rightarrow>
        if j = jj then st
        else
          let distDefect = euclideanDistance U (defects ! j) (defects ! jj);
              distFinger = euclideanDistance U (fingers ! j) (fingers ! jj)
          in (if dlt distDefect minDistDefect then distDefect else minDistDefect,
              if dlt distFinger minDistFinger then distFinger else minDistFinger,
              if dgt distDefect maxDistDefect then distDefect else maxDistDefect,
              if dgt distFinger maxDistFinger then distFinger else maxDistFinger))"

text \<open>The body of the second loop over the fingers: what is pushed for finger \<open>j\<close>.\<close>

definition fingerBlock :: "extern \<Rightarrow> Hand \<Rightarrow> Mat \<Rightarrow> nat \<Rightarrow> double list" where
  "fingerBlock U hand depth_map j =
     (let nFingers = getNumFingers hand;
          center = palmCenterXYZ hand;
          centerij = palmCenterIJ hand;
          fingers = fingersXYZ hand;
          defects = defectsXYZ hand;
          finger = fingers ! j;
          defect = defects ! j;
          fingerij = fingersIJ hand ! j;
          defectij = defectsIJ hand ! j
      in [dmul (euclideanDistance U finger defect) (Fin 5),
          dmul (euclideanDistance U defect center) (Fin 5),
          dmul (euclideanDistance U finger center) (Fin 5),
          ddiv (angleBetween3DVec U finger defect center) PI,
          ddiv (angleBetweenPoints U fingerij centerij defectij) PI,
          pointToAngle U (pt_sub fingerij centerij),
          pointToAngle U (pt_sub defectij centerij)]
         @ (if nFingers > 1 then
              (case foldl (neighbourStep U fingers defects j)
                      (of_int_d (cols depth_map), of_int_d (cols depth_map), Fin 0, Fin 0)
                      [0..<nat nFingers] of
                 (minDistDefect, minDistFinger, maxDistDefect, maxDistFinger) \<Rightarrow>
                   [dmul minDistFinger (Fin 5), dmul maxDistFinger (Fin 5),
                    dmul minDistDefect (Fin 5), dmul maxDistDefect (Fin 5)])
            else []))"

text \<open>The last loop: the sanitization pass over the whole vector.\<close>

definition sanitizeEntry :: "double \<Rightarrow> double" where
  "sanitizeEntry x = (if isnan x then Fin 1 else if dge x FLT_MAX then Fin 100 else x)"

definition sanitize :: "double list \<Rightarrow> double list" where
  "sanitize result = map sanitizeEntry result"

text \<open>The scalar block pushed between the finger count and the per-finger blocks.\<close>

definition scalarBlock :: "extern \<Rightarrow> Hand \<Rightarrow> Mat \<Rightarrow> double list" where
  "scalarBlock U hand depth_map =
     (case computeMeanAndVariance (points_xyz hand) (palmCenterXYZ hand) of
        (avgdist, vardist, avgdepth, vardepth) \<Rightarrow>
          (case diameter U (contour hand) of
             (diam, pa, pb) \<Rightarrow>
               let nFingers = getNumFingers hand;
                   area = surfaceArea hand;
                   cont = contour hand;
                   hull' = convexHull hand;
                   wrist = wristXYZ hand;
                   contArea = contourArea U cont;
                   bounds = boundingBox hand;
                   paXYZ = averageAroundPoint U depth_map (cont ! nat pa) None;
                   pbXYZ = averageAroundPoint U depth_map (cont ! nat pb) None;
                   midWrist = vec_add (wrist ! 0) (vec_div (vec_sub (wrist ! 1) (wrist ! 0)) (Fin 2));
                   avgLen = foldl (\<lambda>acc p. dadd acc (fst p)) (Fin 0) (fingerLengths U hand);
                   avgMidWristDist =
                     foldl (\<lambda>acc finger. dadd acc (euclideanDistance U finger midWrist)) (Fin 0)
                       (fingersXYZ hand)
               in [dmul avgdist (Fin 20),
                   dmul (dsqrt vardist) (Fin 25),
                   dmul area (Fin 10),
                   dmul (dsqrt vardepth) (Fin 25),
                   ddiv contArea (contourArea U hull'),
                   ddiv contArea (of_int_d (rect_width bounds * rect_height bounds)),
                   dmul (ddiv (arcLength U cont True) (arcLength U hull' True)) (Fin (1 / 2)),
                   dmul (ddiv (circleRadius hand) diam) (Fin 2),
                   euclideanDistance U paXYZ pbXYZ,
                   euclideanDistance U (wrist ! 0) (wrist ! 1),
                   dmul (ddiv avgLen (of_int_d nFingers)) (Fin 5),
                   dmul (ddiv avgMidWristDist (of_int_d nFingers)) (Fin 2)]))"

text \<open>
  The reads by index of the function, all after the early return: \<^verbatim>\<open>cont[pa]\<close>,
  \<^verbatim>\<open>cont[pb]\<close>, \<^verbatim>\<open>wrist[0]\<close>, \<^verbatim>\<open>wrist[1]\<close>, and the four landmark lists at every
  index below \<^verbatim>\<open>nFingers\<close>, which is the size of \<^verbatim>\<open>fingersXYZ\<close>.
\<close>

definition featureReadsInBounds :: "extern \<Rightarrow> Hand \<Rightarrow> bool" where
  "featureReadsInBounds U hand =
     (case diameter U (contour hand) of
        (diam, pa, pb) \<Rightarrow>
          0 \<le> pa \<and> pa < int (length (contour hand)) \<and>
          0 \<le> pb \<and> pb < int (length (contour hand)) \<and>
          2 \<le> length (wristXYZ hand) \<and>
          length (fingersXYZ hand) \<le> length (defectsXYZ hand) \<and>
          length (fingersXYZ hand) \<le> length (fingersIJ hand) \<and>
          length (fingersXYZ hand) \<le> length (defectsIJ hand))"

text \<open>\<^verbatim>\<open>HandClassifier::extractHandFeatures\<close>\<close>

definition extractHandFeatures ::
  "extern \<Rightarrow> Hand \<Rightarrow> Mat \<Rightarrow> Point2i \<Rightarrow> double \<Rightarrow> int \<Rightarrow> fault + double list" where
  "extractHandFeatures U obj depth_map top_left img_scale full_wid0 =
     (let full_wid = (if full_wid0 < 0 then cols depth_map else full_wid0);
          hand = obj;
          nFingers = getNumFingers hand
      in if nFingers = 0 then Inr [of_int_d nFingers]
         else if \<not> featureReadsInBounds U hand then Inl OutOfBounds
         else
           (case sortFingerOrder (fingerLengths U hand) of
              None \<Rightarrow> Inl FloatToIntUndefined
            | Some fingerOrder \<Rightarrow>
                Inr (sanitize
                  ([of_int_d nFingers] @ scalarBlock U hand depth_map
                   @ concat (map (\<lambda>p. fingerBlock U hand depth_map (nat (snd p))) fingerOrder)))))"

section \<open>Hand detection (Hand.cpp)\<close>

text \<open>
  \<^verbatim>\<open>Hand::checkForHand\<close>, phase by phase. Integer indices are \<open>int\<close>, as in the code;
  \<open>-1\<close> is "not found". A read \<open>xs ! nat k\<close> of the contour at an index that a
  collaborator returned (a defect, a hull index) relies on the collaborator's contract that
  the index lies in the contour. The \<^verbatim>\<open>DEBUG\<close> drawing code is left out.
  \<^verbatim>\<open>initializeObject\<close> runs \<^verbatim>\<open>checkEdgeConnected\<close> and \<^verbatim>\<open>util::surfaceArea\<close> first; their
  results are the fields \<open>leftEdgeConnected\<close>, \<open>rightEdgeConnected\<close> and \<open>surfaceArea\<close> of the
  object that \<^verbatim>\<open>checkForHand\<close> starts from.
\<close>

subsection \<open>Contour, hull, defects and palm circle\<close>

definition locatePalm :: "extern \<Rightarrow> Hand \<Rightarrow> Hand" where
  "locatePalm U h =
     (let P = params h;
          ct = computeContour U (xyzMap h) (points h) (points_xyz h) (topLeftPt h) (num_points h);
          centroid = nearestPointOnCluster U (xyzMap h)
                       (pt_sub (findCenter U ct) (topLeftPt h)) None;
          topPt = averageAroundPoint U (xyzMap h) (pt_sub (points h ! 0) (topLeftPt h))
                    (Some (xyzAverageSize P))
      in case getConvexHull U ct of
           (hullPts, hullIdx) \<Rightarrow>
             (case largestInscribedCircle U ct (xyzMap h) (boundingBox h) topPt
                     (centerMaxDistFromTop P) of
                (circen, cirrad) \<Rightarrow>
                  let center = pt_sub circen (topLeftPt h)
                  in h \<lparr> contour := ct,
                         convexHull := hullPts,
                         indexHull := hullIdx,
                         palmCenterIJ := circen,
                         palmCenterXYZ :=
                           averageAroundPoint U (xyzMap h) center (Some (xyzAverageSize P)),
                         circleRadius := cirrad \<rparr>))"

definition computeDefects :: "extern \<Rightarrow> Hand \<Rightarrow> Vec4i list" where
  "computeDefects U h =
     (if length (indexHull h) > 3 then convexityDefects U (contour h) (indexHull h) else [])"

subsection \<open>Wrist: contact points\<close>

text \<open>One iteration of the loop over the contour; the state is \<open>(contactL, contactR)\<close>.\<close>

definition contactStep :: "extern \<Rightarrow> Hand \<Rightarrow> int \<times> int \<Rightarrow> nat \<Rightarrow> int \<times> int" where
  "contactStep U h st i =
     (case st of
        (contactL, contactR) \<Rightarrow>
          let P = params h;
              ct = contour h;
              lMargin = contactSideEdgeThresh P;
              rMargin = size_width (fullMapSize h) - contactSideEdgeThresh P;
              pt = ct ! i
          in if touchingEdge h then
               (if dgt (of_int_d (pt_y pt))
                       (dmul (of_int_d (size_height (fullMapSize h))) (handEdgeConnectMaxY P)) \<and>
                   pointOnEdge U (fullMapSize h) pt (contactBotEdgeThresh P)
                     (contactSideEdgeThresh P)
                then
                  (if contactL = - 1 then (int i, int i)
                   else
                     let ccl = ct ! nat contactL;
                         ccr = ct ! nat contactR
                     in if pt_x pt \<le> lMargin then
                          (if pt_x ccl > lMargin \<or> pt_y ccl > pt_y pt then int i else contactL,
                           if pt_x ccr \<le> lMargin \<and> pt_y ccr < pt_y pt then int i else contactR)
                        else if pt_x pt \<ge> rMargin then
                          (if pt_x ccl \<ge> rMargin \<and> pt_y ccl < pt_y pt then int i else contactL,
                           if pt_x ccr < rMargin \<or> pt_y ccr > pt_y pt then int i else contactR)
                        else
                          (if pt_x ccl > pt_x pt then int i else contactL,
                           if pt_x ccr < pt_x pt then int i else contactR))
                else st)
             else
               (if contactL = - 1 \<or> pt_y pt > pt_y (ct ! nat contactL) then (int i, int i)
                else st))"

definition findContacts :: "extern \<Rightarrow> Hand \<Rightarrow> int \<times> int" where
  "findContacts U h = foldl (contactStep U h) (- 1, - 1) [0..<length (contour h)]"

subsection \<open>Wrist: direction and inward walks\<close>

text \<open>\<open>n\<close> is \<^verbatim>\<open>contour.size()\<close>.\<close>

definition walkDirection :: "nat \<Rightarrow> int \<Rightarrow> int \<Rightarrow> int" where
  "walkDirection n contactL contactR =
     (if (contactR > contactL \<and> contactR - contactL < int (n div 2)) \<or>
         (contactR \<le> contactL \<and> contactL - contactR \<ge> int (n div 2))
      then - 1 else 1)"

text \<open>The test of a walk at contour index \<open>i\<close>:
  \<^verbatim>\<open>dist <= params->wristCenterDistThresh\<close>.\<close>

definition nearPalm :: "extern \<Rightarrow> Hand \<Rightarrow> int \<Rightarrow> bool" where
  "nearPalm U h i =
     (let pt = contour h ! nat i;
          xyz = averageAroundPoint U (xyzMap h) (pt_sub pt (topLeftPt h))
                  (Some (xyzAverageSize (params h)));
          dist = euclideanDistance U xyz (palmCenterXYZ h)
      in dle dist (wristCenterDistThresh (params h)))"

text \<open>
  The \<^verbatim>\<open>do ... while (i != stop)\<close> loop of a walk, from index \<open>i\<close>: the wrist index, or
  \<open>-1\<close> when the walk reaches \<open>stop\<close> first. \<open>None\<close> is a walk that never ends.
\<close>

partial_function (option) wristWalk ::
  "(int \<Rightarrow> bool) \<Rightarrow> int \<Rightarrow> int \<Rightarrow> int \<Rightarrow> int \<Rightarrow> int option" where
  "wristWalk near n step stop i =
     (if near i then Some i
      else
        let i' = (i + step + n) mod n
        in if i' \<noteq> stop then wristWalk near n step stop i' else Some (- 1))"

definition findWrist :: "extern \<Rightarrow> Hand \<Rightarrow> int \<Rightarrow> int \<Rightarrow> int \<Rightarrow> (int \<times> int) option" where
  "findWrist U h contactL contactR direction =
     (if contactL \<ge> 0 \<and> contactR \<ge> 0 then
        (case wristWalk (nearPalm U h) (int (length (contour h))) direction contactR contactL of
           None \<Rightarrow> None
         | Some wristL \<Rightarrow>
             (case wristWalk (nearPalm U h) (int (length (contour h))) (- direction) contactL
                     contactR of
                None \<Rightarrow> None
              | Some wristR \<Rightarrow> Some (wristL, wristR)))
      else Some (- 1, - 1))"

text \<open>The wrist points are pushed before the width is tested; the result is the new
  object and \<^verbatim>\<open>wristWidth\<close>.\<close>

definition recordWrist :: "extern \<Rightarrow> Hand \<Rightarrow> int \<Rightarrow> int \<Rightarrow> Hand \<times> double" where
  "recordWrist U h wristL wristR =
     (let wristL_ij = contour h ! nat wristL;
          wristR_ij = contour h ! nat wristR;
          wristL_xyz = averageAroundPoint U (xyzMap h) (pt_sub wristL_ij (topLeftPt h))
                         (Some (xyzAverageSize (params h)));
          wristR_xyz = averageAroundPoint U (xyzMap h) (pt_sub wristR_ij (topLeftPt h))
                         (Some (xyzAverageSize (params h)));
          wristWidth = euclideanDistance U wristL_xyz wristR_xyz
      in (h \<lparr> wristXYZ := wristXYZ h @ [wristL_xyz, wristR_xyz],
               wristIJ := wristIJ h @ [wristL_ij, wristR_ij] \<rparr>,
          wristWidth))"

subsection \<open>Defects and finger candidates\<close>

text \<open>\<^verbatim>\<open>DefectComparer\<close>: the slope table holds, at the far index of each defect, the
  slope of that contour point seen from the palm centre.\<close>

definition defectComparer :: "extern \<Rightarrow> Hand \<Rightarrow> Vec4i \<Rightarrow> Vec4i \<Rightarrow> bool" where
  "defectComparer U h a b =
     dgt (pointToSlope U (pt_sub (contour h ! nat (d2 a)) (palmCenterIJ h)))
         (pointToSlope U (pt_sub (contour h ! nat (d2 b)) (palmCenterIJ h)))"

text \<open>"skip if defect is under wrist"\<close>

definition underWrist :: "int \<Rightarrow> int \<Rightarrow> int \<Rightarrow> Vec4i \<Rightarrow> bool" where
  "underWrist direction wristL wristR defect =
     (if direction = - 1 then
        (if wristL \<le> wristR then d2 defect \<ge> wristL \<and> d2 defect \<le> wristR
         else d2 defect \<le> wristR \<or> d2 defect \<ge> wristL)
      else
        (if wristL \<le> wristR then d2 defect \<le> wristL \<or> d2 defect \<ge> wristR
         else d2 defect \<ge> wristR \<and> d2 defect \<le> wristL))"

record DefectScan =
  fingerTipCands :: "int list"
  fingerDefectCands :: "int list"
  goodDefects :: "int list"
  lastEnd :: Vec3f
  first :: bool

text \<open>One iteration of the loop over the sorted defects.\<close>

definition defectStep ::
  "extern \<Rightarrow> Hand \<Rightarrow> int \<Rightarrow> int \<Rightarrow> int \<Rightarrow> Vec4i list \<Rightarrow> DefectScan \<Rightarrow> nat \<Rightarrow> DefectScan" where
  "defectStep U h direction wristL wristR defects s i =
     (let P = params h;
          ct = contour h;
          defect = defects ! i
      in if underWrist direction wristL wristR defect then s
         else
           let start = nearestPointOnCluster U (xyzMap h)
                         (pt_sub (ct ! nat (d0 defect)) (topLeftPt h)) None;
               end_pt = nearestPointOnCluster U (xyzMap h)
                         (pt_sub (ct ! nat (d1 defect)) (topLeftPt h)) None;
               farPt = nearestPointOnCluster U (xyzMap h)
                         (pt_sub (ct ! nat (d2 defect)) (topLeftPt h)) None
           in if \<not> pointInImage U (xyzMap h) farPt \<or> \<not> pointInImage U (xyzMap h) start \<or>
                 \<not> pointInImage U (xyzMap h) end_pt
              then s
              else
                let far_xyz = averageAroundPoint U (xyzMap h) farPt (Some (xyzAverageSize P));
                    start_xyz = averageAroundPoint U (xyzMap h) start (Some (xyzAverageSize P));
                    end_xyz = averageAroundPoint U (xyzMap h) end_pt (Some (xyzAverageSize P));
                    farCenterDist = euclideanDistance U far_xyz (palmCenterXYZ h);
                    startEndDist = euclideanDistance U start_xyz end_xyz
                in if dgt farCenterDist (defectFarCenterMinDist P) \<and>
                      dlt farCenterDist (defectFarCenterMaxDist P) \<and>
                      dgt startEndDist (defectStartEndMinDist P)
                   then
                     let s1 = s \<lparr> goodDefects := goodDefects s @ [int i] \<rparr>;
                         angle = angleBetweenPoints U start end_pt farPt
                     in if dgt angle (defectMaxAngle P) then s1
                        else
                          let s2 =
                                (if \<not> pointOnEdge U (fullMapSize h) (pt_add start (topLeftPt h))
                                        (bottomEdgeThresh P) (sideEdgeThresh P) \<and>
                                    (first s1 \<or>
                                     dgt (euclideanDistance U (lastEnd s1) start_xyz)
                                       (defectMinDist P))
                                 then s1 \<lparr> fingerTipCands := fingerTipCands s1 @ [d0 defect],
                                           fingerDefectCands := fingerDefectCands s1 @ [d2 defect],
                                           first := False \<rparr>
                                 else s1);
                              s3 =
                                (if \<not> pointOnEdge U (fullMapSize h) (pt_add end_pt (topLeftPt h))
                                        (bottomEdgeThresh P) (sideEdgeThresh P)
                                 then s2 \<lparr> fingerTipCands := fingerTipCands s2 @ [d1 defect],
                                           fingerDefectCands := fingerDefectCands s2 @ [d2 defect] \<rparr>
                                 else s2)
                          in s3 \<lparr> lastEnd := end_xyz \<rparr>
                   else s)"

definition scanDefects ::
  "extern \<Rightarrow> Hand \<Rightarrow> int \<Rightarrow> int \<Rightarrow> int \<Rightarrow> Vec4i list \<Rightarrow> DefectScan" where
  "scanDefects U h direction wristL wristR defects =
     foldl (defectStep U h direction wristL wristR defects)
       \<lparr> fingerTipCands = [], fingerDefectCands = [], goodDefects = [],
         lastEnd = Vec3f (Fin 0) (Fin 0) (Fin 0), first = True \<rparr>
       [0..<length defects]"

subsection \<open>Finger filter\<close>

text \<open>"number of points to the defect"; \<open>n\<close> is \<^verbatim>\<open>contour.size()\<close>.\<close>

definition pointsToDefect :: "nat \<Rightarrow> int \<Rightarrow> int \<Rightarrow> int" where
  "pointsToDefect n defectIdx tipIdx =
     min (abs (defectIdx - tipIdx))
         (min defectIdx tipIdx + int n - max defectIdx tipIdx)"

definition curve_near_lo :: "int \<Rightarrow> int" where
  "curve_near_lo points_to_defect = max 2 (points_to_defect div 20)"

definition curve_mid_lo :: "int \<Rightarrow> int" where
  "curve_mid_lo points_to_defect = max 2 (points_to_defect div 5)"

definition curve_far_lo :: "int \<Rightarrow> int" where
  "curve_far_lo points_to_defect = max 2 (points_to_defect * 9 div 10)"

text \<open>The test on the two curvature values that both finger paths apply.\<close>

definition curveInRange :: "ObjectParams \<Rightarrow> double \<Rightarrow> double \<Rightarrow> bool" where
  "curveInRange P curve_near curve_far =
     (dge curve_near (fingerCurveNearMin P) \<and>
      dle curve_near (fingerCurveNearMax P) \<and>
      dge curve_far (fingerCurveFarMin P) \<and>
      dle curve_far (fingerCurveFarMax P))"

text \<open>
  The three curvature samples of candidate \<open>i\<close> in the finger filter, as the code computes
  them: \<open>(curve_near, curve_mid, curve_far)\<close> before \<^verbatim>\<open>curve_far\<close> is replaced by the
  minimum. The middle sample is taken at \<^verbatim>\<open>indexHull[i]\<close>.
\<close>

definition candidateCurves ::
  "extern \<Rightarrow> Hand \<Rightarrow> int list \<Rightarrow> nat \<Rightarrow> int \<Rightarrow> double \<times> double \<times> double" where
  "candidateCurves U h tipCands i points_to_defect =
     (contourCurvature U (contour h) (tipCands ! i)
        (curve_near_lo points_to_defect) (curve_near_lo points_to_defect + 4),
      contourCurvature U (contour h) (indexHull h ! i)
        (curve_mid_lo points_to_defect) (curve_mid_lo points_to_defect + 5),
      contourCurvature U (contour h) (tipCands ! i)
        (curve_far_lo points_to_defect) (curve_far_lo points_to_defect + 5))"

record FingerSelection =
  fingerTipsIj :: "Point2i list"
  fingerDefectsIj :: "Point2i list"
  fingerTipsXyz :: "Vec3f list"
  fingerTipsIdx :: "int list"
  fingerDefectsIdx :: "int list"

text \<open>One iteration of the loop over the candidates. The read \<^verbatim>\<open>indexHull[i]\<close> is outside
  the vector when the hull has no more than \<open>i\<close> points.\<close>

definition selectStep ::
  "extern \<Rightarrow> Hand \<Rightarrow> int list \<Rightarrow> int list \<Rightarrow> fault + FingerSelection \<Rightarrow> nat \<Rightarrow>
   fault + FingerSelection" where
  "selectStep U h tipCands defectCands acc i =
     (case acc of
        Inl e \<Rightarrow> Inl e
      | Inr s \<Rightarrow>
          let P = params h;
              ct = contour h;
              center = pt_sub (palmCenterIJ h) (topLeftPt h);
              finger_ij = pt_sub (ct ! nat (tipCands ! i)) (topLeftPt h);
              defect_ij = pt_sub (ct ! nat (defectCands ! i)) (topLeftPt h)
          in if pt_y defect_ij < pt_y center + defectMaxYFromCenter P \<and>
                pt_y defect_ij + pt_y (topLeftPt h) <
                  size_height (fullMapSize h) - bottomEdgeThresh P
             then
               let finger_xyz = averageAroundPoint U (xyzMap h) finger_ij
                                  (Some (xyzAverageSize P));
                   defect_xyz = averageAroundPoint U (xyzMap h) defect_ij
                                  (Some (xyzAverageSize P));
                   finger_length = euclideanDistance U finger_xyz defect_xyz;
                   centroid_defect_dist = euclideanDistance U (palmCenterXYZ h) defect_xyz;
                   finger_defect_slope =
                     ddiv (of_int_d (pt_y defect_ij - pt_y finger_ij))
                          (of_int_d (abs (pt_x defect_ij - pt_x finger_ij)));
                   finger_center_slope =
                     ddiv (of_int_d (pt_y center - pt_y finger_ij))
                          (of_int_d (abs (pt_x center - pt_x finger_ij)));
                   centroid_defect_finger_angle =
                     angleBetweenPoints U finger_ij center defect_ij;
                   points_to_defect =
                     pointsToDefect (length ct) (defectCands ! i) (tipCands ! i)
               in if points_to_defect < 10 then Inr s
                  else if \<not> i < length (indexHull h) then Inl OutOfBounds
                  else
                    (case candidateCurves U h tipCands i points_to_defect of
                       (curve_near, curve_mid, curve_far0) \<Rightarrow>
                         let curve_far = std_min curve_mid curve_far0
                         in if dlt finger_length (fingerLenMax P) \<and>
                               dgt finger_length (fingerLenMin P) \<and>
                               dgt finger_defect_slope (fingerDefectSlopeMin P) \<and>
                               dgt finger_center_slope (fingerCenterSlopeMin P) \<and>
                               dgt centroid_defect_finger_angle
                                 (centroidDefectFingerAngleMin P) \<and>
                               dne (v2 finger_xyz) (Fin 0) \<and>
                               curveInRange P curve_near curve_far
                            then
                              Inr (s \<lparr> fingerTipsIj :=
                                         fingerTipsIj s @ [pt_add finger_ij (topLeftPt h)],
                                       fingerDefectsIj :=
                                         fingerDefectsIj s @ [pt_add defect_ij (topLeftPt h)],
                                       fingerTipsXyz := fingerTipsXyz s @ [finger_xyz],
                                       fingerTipsIdx := fingerTipsIdx s @ [tipCands ! i],
                                       fingerDefectsIdx :=
                                         fingerDefectsIdx s @ [defectCands ! i] \<rparr>)
                            else Inr s)
             else Inr s)"

definition selectFingers ::
  "extern \<Rightarrow> Hand \<Rightarrow> int list \<Rightarrow> int list \<Rightarrow> fault + FingerSelection" where
  "selectFingers U h tipCands defectCands =
     foldl (selectStep U h tipCands defectCands)
       (Inr \<lparr> fingerTipsIj = [], fingerDefectsIj = [], fingerTipsXyz = [],
              fingerTipsIdx = [], fingerDefectsIdx = [] \<rparr>)
       [0..<length tipCands]"

subsection \<open>Deduplication\<close>

text \<open>The condition under which the inner loop skips \<open>j\<close> for candidate \<open>i\<close>; index 1
  of a tip is the second coordinate of its 3D sample.\<close>

definition skipsNeighbour :: "Vec3f list \<Rightarrow> nat \<Rightarrow> nat \<Rightarrow> bool" where
  "skipsNeighbour tips i j =
     (dgt (v1 (tips ! i)) (v1 (tips ! j)) \<or> (deq (v1 (tips ! i)) (v1 (tips ! j)) \<and> i \<ge> j))"

text \<open>The inner loop over \<open>j\<close> with its \<^verbatim>\<open>break\<close>: the final \<^verbatim>\<open>mindist\<close>.\<close>

fun minDistScan ::
  "extern \<Rightarrow> double \<Rightarrow> Vec3f list \<Rightarrow> nat \<Rightarrow> nat list \<Rightarrow> double \<Rightarrow> double" where
  "minDistScan U fingerDistMin' tips i [] mindist = mindist"
| "minDistScan U fingerDistMin' tips i (j # js) mindist =
     (if skipsNeighbour tips i j then minDistScan U fingerDistMin' tips i js mindist
      else
        let dist = euclideanDistance U (tips ! i) (tips ! j)
        in if dlt dist mindist then
             (if dlt dist fingerDistMin' then dist
              else minDistScan U fingerDistMin' tips i js dist)
           else minDistScan U fingerDistMin' tips i js mindist)"

text \<open>"remove this finger"\<close>

definition droppedByDedup :: "extern \<Rightarrow> ObjectParams \<Rightarrow> Vec3f list \<Rightarrow> nat \<Rightarrow> bool" where
  "droppedByDedup U P tips i =
     dlt (minDistScan U (fingerDistMin P) tips i [0..<length tips] DBL_MAX) (fingerDistMin P)"

text \<open>One iteration of the outer loop. The two local lists \<^verbatim>\<open>fingerTipsIdxFiltered\<close>
  and \<^verbatim>\<open>defects_idx_filtered\<close>, which nothing reads afterwards, are left out.\<close>

definition dedupStep :: "extern \<Rightarrow> FingerSelection \<Rightarrow> Hand \<Rightarrow> nat \<Rightarrow> Hand" where
  "dedupStep U sel h i =
     (if droppedByDedup U (params h) (fingerTipsXyz sel) i then h
      else
        let defXyz = averageAroundPoint U (xyzMap h)
                       (pt_sub (fingerDefectsIj sel ! i) (topLeftPt h))
                       (Some (xyzAverageSize (params h)))
        in h \<lparr> fingersIJ := fingersIJ h @ [fingerTipsIj sel ! i],
               fingersXYZ := fingersXYZ h @ [fingerTipsXyz sel ! i],
               defectsIJ := defectsIJ h @ [fingerDefectsIj sel ! i],
               defectsXYZ := defectsXYZ h @ [defXyz] \<rparr>)"

definition dedupFingers :: "extern \<Rightarrow> Hand \<Rightarrow> FingerSelection \<Rightarrow> Hand" where
  "dedupFingers U h sel = foldl (dedupStep U sel) h [0..<length (fingerTipsXyz sel)]"

subsection \<open>Single-finger fallback\<close>

record IndexFinger =
  farthest :: double
  indexFinger_ij :: Point2i
  indexFinger_idx :: int
  indexFinger_right :: Point2i
  indexFinger_left :: Point2i

text \<open>One iteration of the loop over the hull points. \<^verbatim>\<open>convexHull\<close> and \<^verbatim>\<open>indexHull\<close>
  are filled together by \<open>getConvexHull\<close>.\<close>

definition hullStep :: "extern \<Rightarrow> Hand \<Rightarrow> IndexFinger \<Rightarrow> nat \<Rightarrow> IndexFinger" where
  "hullStep U h s i =
     (let P = params h;
          convexPt = convexHull h ! i
      in if pointOnEdge U (fullMapSize h) convexPt (bottomEdgeThresh P) (sideEdgeThresh P)
         then s
         else
           let convexPt_xyz = averageAroundPoint U (xyzMap h)
                                (pt_sub convexPt (topLeftPt h)) (Some 22);
               dist = euclideanDistance U convexPt_xyz (palmCenterXYZ h);
               slope = ddiv (of_int_d (pt_y (palmCenterIJ h) - pt_y convexPt))
                            (of_int_d (abs (pt_x convexPt - pt_x (palmCenterIJ h))))
           in if dgt slope (Fin (- 1 / 10)) \<and>
                 pt_y convexPt < size_height (fullMapSize h) - 10 \<and>
                 dgt dist (farthest s)
              then
                \<lparr> farthest = dist,
                  indexFinger_ij = convexPt,
                  indexFinger_idx = indexHull h ! i,
                  indexFinger_right = convexHull h ! ((i + 1) mod length (convexHull h)),
                  indexFinger_left =
                    convexHull h ! ((i + length (convexHull h) - 1) mod length (convexHull h)) \<rparr>
              else s)"

record BestDefect =
  best :: double
  bestDef :: Point2i
  bestXyz :: Vec3f
  bestIdx :: int

text \<open>One iteration of the loop over the good defects; \<open>gd\<close> is \<^verbatim>\<open>goodDefects[j]\<close>.\<close>

definition bestDefectStep ::
  "extern \<Rightarrow> Hand \<Rightarrow> Vec4i list \<Rightarrow> Vec3f \<Rightarrow> BestDefect \<Rightarrow> int \<Rightarrow> BestDefect" where
  "bestDefectStep U h defects indexFinger_xyz s gd =
     (let defect = defects ! nat gd;
          farPt0 = pt_sub (contour h ! nat (d2 defect)) (topLeftPt h);
          far_xyz = averageAroundPoint U (xyzMap h) farPt0 (Some (xyzAverageSize (params h)));
          farPt = nearestPointOnCluster U (xyzMap h) farPt0 None;
          dist = euclideanDistance U far_xyz indexFinger_xyz
      in if dgt dist (singleFingerLenMin (params h)) \<and> dlt dist (best s)
         then \<lparr> best = dist, bestDef = farPt, bestXyz = far_xyz, bestIdx = d2 defect \<rparr>
         else s)"

text \<open>The loop over the hull points, under its guard \<^verbatim>\<open>convexHull.size() > 1\<close>. The
  candidate starts as a default point with an uninitialised index.\<close>

definition findIndexFinger :: "extern \<Rightarrow> Hand \<Rightarrow> IndexFinger" where
  "findIndexFinger U h =
     (let s0 = \<lparr> farthest = Fin 0,
                   indexFinger_ij = Point2i 0 0,
                   indexFinger_idx = indeterminate U,
                   indexFinger_right = Point2i 0 0,
                   indexFinger_left = Point2i 0 0 \<rparr>
      in if length (convexHull h) > 1
         then foldl (hullStep U h) s0 [0..<length (convexHull h)]
         else s0)"

text \<open>The loop over the good defects.\<close>

definition findBestDefect ::
  "extern \<Rightarrow> Hand \<Rightarrow> Vec4i list \<Rightarrow> int list \<Rightarrow> Vec3f \<Rightarrow> BestDefect" where
  "findBestDefect U h defects goodDefects' indexFinger_xyz =
     foldl (bestDefectStep U h defects indexFinger_xyz)
       \<lparr> best = DBL_MAX, bestDef = Point2i 0 0,
         bestXyz = Vec3f (Fin 0) (Fin 0) (Fin 0), bestIdx = - 1 \<rparr>
       goodDefects'"

text \<open>The defect pushed for the finger: the palm centre when no defect qualified.\<close>

definition pushBestDefect :: "Hand \<Rightarrow> BestDefect \<Rightarrow> Hand" where
  "pushBestDefect h b =
     (if deq (best b) DBL_MAX
      then h \<lparr> defectsIJ := defectsIJ h @ [palmCenterIJ h],
               defectsXYZ := defectsXYZ h @ [palmCenterXYZ h] \<rparr>
      else h \<lparr> defectsIJ := defectsIJ h @ [pt_add (bestDef b) (topLeftPt h)],
               defectsXYZ := defectsXYZ h @ [bestXyz b] \<rparr>)"

text \<open>The four \<^verbatim>\<open>clear()\<close> calls that discard the finger.\<close>

definition clearLandmarks :: "Hand \<Rightarrow> Hand" where
  "clearLandmarks h = h \<lparr> fingersIJ := [], fingersXYZ := [], defectsIJ := [], defectsXYZ := [] \<rparr>"

text \<open>The tests on the finger once its defect is pushed: arc length, curvature (unless
  \<^verbatim>\<open>PLANE_ENABLED\<close>), length.\<close>

definition singleFingerFilter :: "extern \<Rightarrow> Hand \<Rightarrow> int \<Rightarrow> int \<Rightarrow> Vec3f \<Rightarrow> Hand" where
  "singleFingerFilter U h bestIdx' indexFinger_idx' indexFinger_xyz =
     (let P = params h;
          points_to_defect = pointsToDefect (length (contour h)) bestIdx' indexFinger_idx';
          curve_near = contourCurvature U (contour h) indexFinger_idx'
                         (curve_near_lo points_to_defect)
                         (curve_near_lo points_to_defect + 4);
          curve_mid = contourCurvature U (contour h) indexFinger_idx'
                        (curve_mid_lo points_to_defect)
                        (curve_mid_lo points_to_defect + 5);
          curve_far0 = contourCurvature U (contour h) indexFinger_idx'
                         (curve_far_lo points_to_defect)
                         (curve_far_lo points_to_defect + 5);
          curve_far = std_min curve_mid curve_far0;
          fingerLen = euclideanDistance U indexFinger_xyz (defectsXYZ h ! 0)
      in if points_to_defect < 10 then clearLandmarks h
         else if \<not> PLANE_ENABLED U \<and> \<not> curveInRange P curve_near curve_far
         then clearLandmarks h
         else if dgt fingerLen (singleFingerLenMax P) \<or> dlt fingerLen (singleFingerLenMin P)
         then clearLandmarks h
         else h)"

text \<open>
  The block "special case for one or less visible fingers", entered when at most one
  finger is left. \<open>defects\<close> are the sorted defects, \<open>goodDefects'\<close> the indices kept by the
  scan. The two local index lists are left out (nothing reads them).
\<close>

definition singleFinger :: "extern \<Rightarrow> Hand \<Rightarrow> Vec4i list \<Rightarrow> int list \<Rightarrow> Hand" where
  "singleFinger U h defects goodDefects' =
     (let P = params h;
          h1 = h \<lparr> fingersXYZ := [], fingersIJ := [] \<rparr>;
          s = findIndexFinger U h1;
          finger_ij = pt_add (nearestPointOnCluster U (xyzMap h1)
                                (pt_sub (indexFinger_ij s) (topLeftPt h1)) (Some 10000))
                             (topLeftPt h1);
          indexFinger_xyz = averageAroundPoint U (xyzMap h1)
                              (pt_sub finger_ij (topLeftPt h1)) (Some 10);
          angle = angleBetweenPoints U (indexFinger_left s) (indexFinger_right s) finger_ij;
          h2 = h1 \<lparr> defectsIJ := [], defectsXYZ := [] \<rparr>
      in if dle angle (singleFingerAngleThresh P) \<or>
            pointOnEdge U (fullMapSize h2) finger_ij (bottomEdgeThresh P) (sideEdgeThresh P) \<or>
            length goodDefects' = 0
         then h2
         else
           let h3 = h2 \<lparr> fingersXYZ := fingersXYZ h2 @ [indexFinger_xyz],
                         fingersIJ := fingersIJ h2 @ [finger_ij] \<rparr>;
               b = findBestDefect U h3 defects goodDefects' indexFinger_xyz;
               h4 = pushBestDefect h3 b
           in singleFingerFilter U h4 (bestIdx b) (indexFinger_idx s) indexFinger_xyz)"

subsection \<open>Acceptance gate\<close>

text \<open>"report not hand if there are too few/many fingers", then the "Final SVM check".
  The result is the value \<^verbatim>\<open>checkForHand\<close> returns and the object it leaves.\<close>

definition acceptanceGate :: "extern \<Rightarrow> Hand \<Rightarrow> fault + bool \<times> Hand" where
  "acceptanceGate U h =
     (if length (fingersIJ h) > 6 \<or> length (fingersIJ h) < 1 then Inr (False, h)
      else if handUseSVM (params h) \<and> isTrained (handClassifier U) then
        (let h1 = h \<lparr> isHand := True \<rparr>
         in case extractHandFeatures U h1 (xyzMap h1) (topLeftPt h1) (Fin 1)
                   (size_width (fullMapSize h1)) of
              Inl e \<Rightarrow> Inl e
            | Inr features \<Rightarrow>
                (case classify (handClassifier U) features of
                   Inl e \<Rightarrow> Inl e
                 | Inr confidence \<Rightarrow>
                     let h2 = h1 \<lparr> svmConfidence := confidence \<rparr>
                     in if dlt (svmConfidence h2) (handSVMConfidenceThresh (params h2))
                        then Inr (False, h2)
                        else Inr (True, h2)))
      else Inr (True, h))"

subsection \<open>The whole evaluation\<close>

text \<open>"Detect fingers": from the sort of the defects to the gate.\<close>

definition detectFingers ::
  "extern \<Rightarrow> Hand \<Rightarrow> Vec4i list \<Rightarrow> int \<Rightarrow> int \<Rightarrow> int \<Rightarrow> fault + bool \<times> Hand" where
  "detectFingers U h defects0 direction wristL wristR =
     (let defects = sortDefects U (defectComparer U h) defects0;
          scan = scanDefects U h direction wristL wristR defects
      in case selectFingers U h (fingerTipCands scan) (fingerDefectCands scan) of
           Inl e \<Rightarrow> Inl e
         | Inr sel \<Rightarrow>
             let h1 = dedupFingers U h sel;
                 h2 = (if length (fingersXYZ h1) \<le> 1
                       then singleFinger U h1 defects (goodDefects scan)
                       else h1)
             in acceptanceGate U h2)"

text \<open>\<^verbatim>\<open>Hand::checkForHand\<close>\<close>

definition checkForHand :: "extern \<Rightarrow> Hand \<Rightarrow> fault + bool \<times> Hand" where
  "checkForHand U h =
     (if length (points h) = 0 \<or> num_points h = 0 then Inr (False, h)
      else
        let h1 = locatePalm U h;
            defects = computeDefects U h1
        in case findContacts U h1 of
             (contactL, contactR) \<Rightarrow>
               let direction =
                     (if contactL \<ge> 0 \<and> contactR \<ge> 0
                      then walkDirection (length (contour h1)) contactL contactR
                      else 1)
               in case findWrist U h1 contactL contactR direction of
                    None \<Rightarrow> Inl LoopDiverges
                  | Some (wristL, wristR) \<Rightarrow>
                      if wristL < 0 \<or> wristR < 0 then Inr (False, h1)
                      else
                        (case recordWrist U h1 wristL wristR of
                           (h2, wristWidth) \<Rightarrow>
                             if dlt wristWidth (wristWidthMin (params h2)) \<or>
                                dgt wristWidth (wristWidthMax (params h2))
                             then Inr (False, h2)
                             else detectFingers U h2 defects direction wristL wristR))"

subsection \<open>The landmark lists\<close>

text \<open>The four landmark lists have one length. \<^verbatim>\<open>getNumFingers\<close> is the size of
  \<^verbatim>\<open>fingersXYZ\<close>.\<close>

definition landmarksAligned :: "Hand \<Rightarrow> bool" where
  "landmarksAligned h =
     (length (fingersIJ h) = length (fingersXYZ h) \<and>
      length (defectsIJ h) = length (fingersXYZ h) \<and>
      length (defectsXYZ h) = length (fingersXYZ h))"

subsection \<open>The points a walk samples\<close>

text \<open>
  A walk that starts at contour index \<open>i\<close> and moves by \<open>step\<close> around a contour of \<open>n\<close>
  points tests the index \<open>walkSample n step i k\<close> in its \<open>k\<close>-th iteration; when no test
  succeeds it makes \<open>walkLength n step stop i\<close> iterations before it reaches \<open>stop\<close>.
\<close>

definition walkSample :: "int \<Rightarrow> int \<Rightarrow> int \<Rightarrow> nat \<Rightarrow> int" where
  "walkSample n step i k = (i + int k * step) mod n"

definition walkLength :: "int \<Rightarrow> int \<Rightarrow> int \<Rightarrow> int \<Rightarrow> nat" where
  "walkLength n step stop i = nat (((stop - i) * step - 1) mod n) + 1"

section \<open>A synthetic scene\<close>

text \<open>
  Closed instances need values for the external collaborators. The scene below is
  synthetic: an orthographic camera in which one pixel is one millimetre at a depth of half
  a metre, the Euclidean distance, and fixed answers for the contour, the hull, the defects,
  the palm circle, the angles (two radians when measured against the palm centre, one
  otherwise) and the curvature.
\<close>

definition euclid :: "Vec3f \<Rightarrow> Vec3f \<Rightarrow> double" where
  "euclid a b =
     dsqrt (dadd (dadd (dmul (dsub (v0 a) (v0 b)) (dsub (v0 a) (v0 b)))
                       (dmul (dsub (v1 a) (v1 b)) (dsub (v1 a) (v1 b))))
                 (dmul (dsub (v2 a) (v2 b)) (dsub (v2 a) (v2 b))))"

definition ortho :: "Point2i \<Rightarrow> Vec3f" where
  "ortho p = Vec3f (Fin (of_int (pt_x p) / 1000)) (Fin (of_int (pt_y p) / 1000)) (Fin (1 / 2))"

definition sceneMap :: Mat where
  "sceneMap = \<lparr> rows = 200, cols = 200, mat_at = (\<lambda>r c. ortho (Point2i c r)) \<rparr>"

definition scenePoint :: "nat \<Rightarrow> Point2i" where
  "scenePoint k =
     (if k = 0 then Point2i 50 130
      else if k = 1 then Point2i 75 100
      else if k = 59 then Point2i 25 100
      else if k = 10 then Point2i 35 5
      else if k = 20 then Point2i 50 25
      else if k = 30 then Point2i 65 5
      else Point2i 50 0)"

definition sceneContour :: "Point2i list" where
  "sceneContour = map scenePoint [0..<60]"

definition sceneHullIdx :: "int list" where
  "sceneHullIdx = [59, 30, 10, 1]"

definition sceneExtern :: extern where
  "sceneExtern =
     \<lparr> computeContour = (\<lambda>m pts xyz tl n. sceneContour),
       getConvexHull = (\<lambda>ct. (map (\<lambda>i. ct ! nat i) sceneHullIdx, sceneHullIdx)),
       convexityDefects = (\<lambda>ct ih. [Vec4i 10 30 20 0]),
       findCenter = (\<lambda>ct. Point2i 50 50),
       nearestPointOnCluster = (\<lambda>m p d. p),
       averageAroundPoint = (\<lambda>m p s. ortho p),
       largestInscribedCircle = (\<lambda>ct m r top d. (Point2i 50 50, Fin 20)),
       pointOnEdge = (\<lambda>sz p bot side.
          pt_x p < side \<or> size_width sz - side \<le> pt_x p \<or> size_height sz - bot \<le> pt_y p),
       pointInImage = (\<lambda>m p. 0 \<le> pt_x p \<and> pt_x p < cols m \<and> 0 \<le> pt_y p \<and> pt_y p < rows m),
       euclideanDistance = euclid,
       pointToSlope = (\<lambda>p. Fin (of_int (pt_x p))),
       pointToAngle = (\<lambda>p. Fin 0),
       angleBetweenPoints = (\<lambda>a b c. if b = Point2i 50 50 then Fin 2 else Fin 1),
       angleBetween3DVec = (\<lambda>a b c. Fin 1),
       contourCurvature = (\<lambda>ct i lo hi. Fin 1),
       contourArea = (\<lambda>ct. Fin 100),
       arcLength = (\<lambda>ct closed. Fin 10),
       diameter = (\<lambda>ct. (Fin 10, 0, 0)),
       sortDefects = std_sort,
       PLANE_ENABLED = False,
       indeterminate = 0,
       handClassifier = constClassifier (9 / 10) \<rparr>"

text \<open>A hand object as the constructor leaves it before the evaluation: the cluster,
  the window and the parameters are set, and every list of landmarks is empty.\<close>

definition sceneHand :: Hand where
  "sceneHand =
     \<lparr> points = [Point2i 50 0],
       points_xyz = [ortho (Point2i 50 0)],
       num_points = 1,
       xyzMap = sceneMap,
       topLeftPt = Point2i 0 0,
       fullMapSize = Size 200 200,
       boundingBox = Rect 0 0 200 200,
       params = DEFAULT,
       surfaceArea = Fin (2 / 100),
       leftEdgeConnected = False,
       rightEdgeConnected = False,
       contour = [],
       convexHull = [],
       indexHull = [],
       palmCenterIJ = Point2i 0 0,
       palmCenterXYZ = Vec3f (Fin 0) (Fin 0) (Fin 0),
       circleRadius = Fin 0,
       wristXYZ = [],
       wristIJ = [],
       fingersIJ = [],
       fingersXYZ = [],
       defectsIJ = [],
       defectsXYZ = [],
       isHand = False,
       svmConfidence = Fin 0 \<rparr>"

text \<open>Hands with landmarks, as an evaluation leaves them: one finger of 25 mm, and two
  fingers of which the first (index 0) is 100 mm long and the second (index 1) 50 mm.\<close>

definition oneFingerHand :: Hand where
  "oneFingerHand =
     sceneHand
       \<lparr> contour := sceneContour,
         palmCenterIJ := Point2i 50 50,
         palmCenterXYZ := ortho (Point2i 50 50),
         wristXYZ := [ortho (Point2i 75 100), ortho (Point2i 25 100)],
         wristIJ := [Point2i 75 100, Point2i 25 100],
         fingersIJ := [Point2i 35 5],
         fingersXYZ := [ortho (Point2i 35 5)],
         defectsIJ := [Point2i 50 25],
         defectsXYZ := [ortho (Point2i 50 25)] \<rparr>"

definition twoFingerHand :: Hand where
  "twoFingerHand =
     sceneHand
       \<lparr> contour := sceneContour,
         palmCenterIJ := Point2i 50 100,
         palmCenterXYZ := ortho (Point2i 50 100),
         wristXYZ := [ortho (Point2i 75 150), ortho (Point2i 25 150)],
         wristIJ := [Point2i 75 150, Point2i 25 150],
         fingersIJ := [Point2i 40 0, Point2i 60 50],
         fingersXYZ := [ortho (Point2i 40 0), ortho (Point2i 60 50)],
         defectsIJ := [Point2i 40 100, Point2i 60 100],
         defectsXYZ := [ortho (Point2i 40 100), ortho (Point2i 60 100)] \<rparr>"

text \<open>The length of the feature vector as the specification words it:
  \<open>1 + 11 + fingers \<times> (7 or 11)\<close>, and 1 without fingers.\<close>

definition claimedFeatureLength :: "int \<Rightarrow> nat" where
  "claimedFeatureLength nFingers =
     (if nFingers = 0 then 1
      else if nFingers = 1 then 1 + 11 + nat nFingers * 7
      else 1 + 11 + nat nFingers * 11)"

text \<open>Two candidate tips 5 mm apart on the same image row (and so with the same second
  3D coordinate), with their pixels.\<close>

definition closeTipsIj :: "Point2i list" where
  "closeTipsIj = [Point2i 35 5, Point2i 40 5]"

definition closeTips :: "Vec3f list" where
  "closeTips = map ortho closeTipsIj"

text \<open>
  The deduplication rule as the specification words it: a candidate is dropped exactly
  when some other candidate with strictly smaller row is closer than \<^verbatim>\<open>fingerDistMin\<close>.
  The row of a candidate is the row of its pixel.
\<close>

definition claimedDropped ::
  "extern \<Rightarrow> ObjectParams \<Rightarrow> Point2i list \<Rightarrow> Vec3f list \<Rightarrow> nat \<Rightarrow> bool" where
  "claimedDropped U P tipsIj tips i =
     list_ex (\<lambda>j. j \<noteq> i \<and> pt_y (tipsIj ! j) < pt_y (tipsIj ! i) \<and>
                   dlt (euclideanDistance U (tips ! i) (tips ! j)) (fingerDistMin P))
       [0..<length tips]"

text \<open>The squared distance of two pixels, for the distances of the scene.\<close>

definition sqdist :: "Point2i \<Rightarrow> Point2i \<Rightarrow> int" where
  "sqdist p q = (pt_x p - pt_x q)\<^sup>2 + (pt_y p - pt_y q)\<^sup>2"

text \<open>The scene with a curvature that answers the centre index of its window: what the
  three samples of a candidate are centred at can be read off their values.\<close>

definition probeExtern :: extern where
  "probeExtern = sceneExtern \<lparr> contourCurvature := (\<lambda>ct idx lo hi. of_int_d idx) \<rparr>"

text \<open>The scene with the palm circle moved away from the contour: every contour point is
  farther from the palm centre than \<^verbatim>\<open>wristCenterDistThresh\<close>.\<close>

definition farExtern :: extern where
  "farExtern = sceneExtern \<lparr> largestInscribedCircle := (\<lambda>ct m r top d. (Point2i 150 50, Fin 20)) \<rparr>"

text \<open>The object of the scene after the palm is located, after the wrist is recorded,
  after the fingers are found, and as the evaluation leaves it.\<close>

definition scenePalmHand :: Hand where
  "scenePalmHand =
     sceneHand
       \<lparr> contour := sceneContour,
         convexHull := map (\<lambda>i. sceneContour ! nat i) sceneHullIdx,
         indexHull := sceneHullIdx,
         palmCenterIJ := Point2i 50 50,
         palmCenterXYZ := ortho (Point2i 50 50),
         circleRadius := Fin 20 \<rparr>"

definition sceneWristHand :: Hand where
  "sceneWristHand =
     scenePalmHand
       \<lparr> wristXYZ := [ortho (Point2i 75 100), ortho (Point2i 25 100)],
         wristIJ := [Point2i 75 100, Point2i 25 100] \<rparr>"

definition sceneFingersHand :: Hand where
  "sceneFingersHand =
     sceneWristHand
       \<lparr> fingersIJ := [Point2i 35 5, Point2i 65 5],
         fingersXYZ := [ortho (Point2i 35 5), ortho (Point2i 65 5)],
         defectsIJ := [Point2i 50 25, Point2i 50 25],
         defectsXYZ := [ortho (Point2i 50 25), ortho (Point2i 50 25)] \<rparr>"

definition sceneAcceptedHand :: Hand where
  "sceneAcceptedHand = sceneFingersHand \<lparr> isHand := True, svmConfidence := Fin (9 / 10) \<rparr>"

text \<open>What the finger filter selects in the scene.\<close>

definition sceneSelection :: FingerSelection where
  "sceneSelection =
     \<lparr> fingerTipsIj = [Point2i 35 5, Point2i 65 5],
       fingerDefectsIj = [Point2i 50 25, Point2i 50 25],
       fingerTipsXyz = [ortho (Point2i 35 5), ortho (Point2i 65 5)],
       fingerTipsIdx = [10, 30],
       fingerDefectsIdx = [20, 20] \<rparr>"

section \<open>Properties of the classifier\<close>

lemma std_clamp_unit:
  "dle (Fin 0) (std_max (std_min (Fin 1) r) (Fin 0)) \<and>
   dle (std_max (std_min (Fin 1) r) (Fin 0)) (Fin 1)"
  by (cases r) (auto simp: std_max_def std_min_def dle_def dlt_def deq_def isnan_def)

lemma classify_clamped:
  assumes "classify c features = Inr r"
  shows "dle (Fin 0) r \<and> dle r (Fin 1)"
proof (cases "length features = 0")
  case True
  with assms have "r = Fin 0"
    by (simp add: classify_def split: if_splits)
  then show ?thesis
    by (simp add: dle_def dlt_def deq_def isnan_def)
next
  case False
  with assms obtain x where "r = std_max (std_min (Fin 1) x) (Fin 0)"
    by (auto simp: classify_def Let_def split: if_splits option.splits)
  then show ?thesis
    using std_clamp_unit by simp
qed

text \<open>
  C5. \<^verbatim>\<open>classify\<close> raises the not-trained exception exactly when the classifier is
  untrained: an untrained classifier fails with it on every vector, a trained one never
  raises it.
\<close>

theorem classify_not_trained_iff:
  "(classify c features = Inl ClassifierNotTrainedException) = (\<not> isTrained c)"
  by (simp add: classify_def isTrained_def Let_def split: option.splits)

theorem classify_not_trained_iff_witness:
  "classify untrainedClassifier [Fin 1, Fin 2] = Inl ClassifierNotTrainedException \<and>
   classify (constClassifier (1 / 2)) [Fin 1, Fin 2] \<noteq> Inl ClassifierNotTrainedException"
  using classify_not_trained_iff [of untrainedClassifier "[Fin 1, Fin 2]"]
    classify_not_trained_iff [of "constClassifier (1 / 2)" "[Fin 1, Fin 2]"]
  by (simp add: isTrained_def untrainedClassifier_def constClassifier_def)

text \<open>
  C6. On the vector \<^verbatim>\<open>[0.0]\<close>, which is what the feature extractor returns for a hand
  without fingers, a trained classifier does not reach the clamp: the size test for
  "no fingers" does not apply (the size is 1), the bucket index is
  \<^verbatim>\<open>min(0 - 1, NUM_SVMS - 1) = -1\<close>, and \<^verbatim>\<open>svm[-1]\<close> is read outside the array.
\<close>

theorem classify_no_fingers_out_of_bounds:
  assumes "isTrained c" and "1 \<le> MAX_FEATURES c"
  shows "classify c [Fin 0] = Inl OutOfBounds"
  using assms
  by (simp add: classify_def isTrained_def Let_def d2i_def trunc_real_def INT_MIN_def
      INT_MAX_def getSVMIdx_def NUM_SVMS_def)

theorem classify_no_fingers_out_of_bounds_witness:
  "isTrained (constClassifier (1 / 2)) \<and> 1 \<le> MAX_FEATURES (constClassifier (1 / 2)) \<and>
   classify (constClassifier (1 / 2)) [Fin 0] = Inl OutOfBounds"
proof -
  have t: "isTrained (constClassifier (1 / 2))"
    by (simp add: isTrained_def constClassifier_def)
  have m: "1 \<le> MAX_FEATURES (constClassifier (1 / 2))"
    by (simp add: constClassifier_def)
  show ?thesis
    using t m classify_no_fingers_out_of_bounds [OF t m] by simp
qed

section \<open>Properties of the feature extractor\<close>

lemma length_insert_sorted: "length (insert_sorted cmp x ys) = Suc (length ys)"
  by (induction ys) simp_all

lemma length_std_sort: "length (std_sort cmp xs) = length xs"
proof -
  have "length (foldl (\<lambda>acc x. insert_sorted cmp x acc) acc xs) = length acc + length xs"
    for acc
    by (induction xs arbitrary: acc) (simp_all add: length_insert_sorted)
  then show ?thesis
    by (simp add: std_sort_def)
qed

lemma length_sortFingerOrder:
  "sortFingerOrder xs = Some ys \<Longrightarrow> length ys = length xs"
  by (auto simp: sortFingerOrder_def length_std_sort split: if_splits)

lemma length_fingerLengths: "length (fingerLengths U hand) = length (fingersXYZ hand)"
  by (simp add: fingerLengths_def)

lemma length_fingerBlock:
  "length (fingerBlock U hand depth_map j) = (if 1 < getNumFingers hand then 11 else 7)"
  by (simp add: fingerBlock_def Let_def split: prod.splits)

lemma length_scalarBlock: "length (scalarBlock U hand depth_map) = 12"
  by (simp add: scalarBlock_def Let_def split: prod.splits)

lemma length_concat_const:
  "(\<And>x. length (f x) = k) \<Longrightarrow> length (concat (map f xs)) = length xs * k"
  by (induction xs) simp_all

lemma extract_length:
  assumes "extractHandFeatures U hand depth_map top_left img_scale full_wid = Inr v"
  shows "length v =
     (if getNumFingers hand = 0 then 1
      else if getNumFingers hand = 1 then 1 + 12 + nat (getNumFingers hand) * 7
      else 1 + 12 + nat (getNumFingers hand) * 11)"
proof (cases "getNumFingers hand = 0")
  case True
  with assms show ?thesis
    by (auto simp: extractHandFeatures_def Let_def)
next
  case False
  with assms obtain fo where fo: "sortFingerOrder (fingerLengths U hand) = Some fo"
    and v: "v = sanitize ([of_int_d (getNumFingers hand)] @ scalarBlock U hand depth_map
                   @ concat (map (\<lambda>p. fingerBlock U hand depth_map (nat (snd p))) fo))"
    by (auto simp: extractHandFeatures_def Let_def split: if_splits option.splits)
  have n: "length fo = nat (getNumFingers hand)"
    using length_sortFingerOrder [OF fo] by (simp add: length_fingerLengths getNumFingers_def)
  have "length (concat (map (\<lambda>p. fingerBlock U hand depth_map (nat (snd p))) fo))
        = length fo * (if 1 < getNumFingers hand then 11 else 7)"
    by (rule length_concat_const) (rule length_fingerBlock)
  moreover have "0 < length (fingersXYZ hand)"
    using False by (simp add: getNumFingers_def)
  then have "length (fingersXYZ hand) = 1 \<or> 1 < length (fingersXYZ hand)"
    by arith
  ultimately show ?thesis
    using v n
    by (auto simp: sanitize_def length_scalarBlock getNumFingers_def)
qed

lemma extract_returns:
  assumes "getNumFingers hand = 0 \<or> featureReadsInBounds U hand"
    and "sortFingerOrder (fingerLengths U hand) \<noteq> None"
  shows "\<exists>v. extractHandFeatures U hand depth_map top_left img_scale full_wid = Inr v"
  using assms by (auto simp: extractHandFeatures_def Let_def)

lemma insert_sorted_front:
  "(ys = [] \<or> cmp x (hd ys)) \<Longrightarrow> insert_sorted cmp x ys = x # ys"
  by (cases ys) simp_all

lemma std_sort_snoc: "std_sort cmp (xs @ [x]) = insert_sorted cmp x (std_sort cmp xs)"
  by (simp add: std_sort_def)

lemma std_sort_equal_keys:
  assumes "\<And>i. i < n \<Longrightarrow> key (g i) = (t, int i)"
  shows "std_sort (\<lambda>a b. pair_greater (key a) (key b)) (map g [0..<n]) = rev (map g [0..<n])"
  using assms
proof (induction n)
  case 0
  show ?case by (simp add: std_sort_def)
next
  case (Suc n)
  have ih: "std_sort (\<lambda>a b. pair_greater (key a) (key b)) (map g [0..<n]) = rev (map g [0..<n])"
    using Suc by simp
  have front: "rev (map g [0..<n]) = [] \<or>
      pair_greater (key (g n)) (key (hd (rev (map g [0..<n]))))"
  proof (cases n)
    case 0
    then show ?thesis by simp
  next
    case (Suc m)
    then have "hd (rev (map g [0..<n])) = g m"
      by simp
    moreover have "key (g m) = (t, int m)" "key (g n) = (t, int n)"
      using Suc.prems Suc by simp_all
    ultimately show ?thesis
      using Suc by (simp add: pair_greater_def pair_less_def)
  qed
  have "insert_sorted (\<lambda>a b. pair_greater (key a) (key b)) (g n) (rev (map g [0..<n]))
        = g n # rev (map g [0..<n])"
    using front by (intro insert_sorted_front) simp
  with ih show ?case
    by (simp add: std_sort_snoc)
qed

lemma rev_short: "length xs < 2 \<Longrightarrow> rev xs = xs"
proof (cases xs)
  case Nil
  then show ?thesis by simp
next
  case (Cons a ys)
  assume "length xs < 2"
  with Cons have "ys = []" by simp
  with Cons show ?thesis by simp
qed

lemma sortFingerOrder_equal_trunc:
  assumes "\<And>i. i < length (fingersXYZ hand) \<Longrightarrow>
             d2i (euclideanDistance U (fingersXYZ hand ! i) (defectsXYZ hand ! i)) = Some t"
  shows "sortFingerOrder (fingerLengths U hand) = Some (rev (fingerLengths U hand))"
proof (cases "length (fingersXYZ hand) < 2")
  case True
  then have "length (fingerLengths U hand) < 2"
    by (simp add: fingerLengths_def)
  moreover from this have "rev (fingerLengths U hand) = fingerLengths U hand"
    by (rule rev_short)
  ultimately show ?thesis
    by (simp add: sortFingerOrder_def)
next
  case False
  have all: "list_all (\<lambda>p. d2i (fst p) \<noteq> None) (fingerLengths U hand)"
    using assms by (simp add: fingerLengths_def list_all_iff)
  have "std_sort (\<lambda>a b. pair_greater (to_int_pair a) (to_int_pair b))
          (map (\<lambda>i. (euclideanDistance U (fingersXYZ hand ! i) (defectsXYZ hand ! i), int i))
             [0..<length (fingersXYZ hand)])
        = rev (map (\<lambda>i. (euclideanDistance U (fingersXYZ hand ! i) (defectsXYZ hand ! i), int i))
             [0..<length (fingersXYZ hand)])"
    by (rule std_sort_equal_keys [where t = t]) (simp add: to_int_pair_def assms)
  with False all show ?thesis
    by (simp add: sortFingerOrder_def fingerLengths_def)
qed

lemma d2i_small: "0 \<le> r \<Longrightarrow> r < 1 \<Longrightarrow> d2i (Fin r) = Some 0"
proof -
  assume "0 \<le> r" "r < 1"
  then have "\<lfloor>r\<rfloor> = 0" by linarith
  with \<open>0 \<le> r\<close> show ?thesis
    by (simp add: d2i_def trunc_real_def INT_MIN_def INT_MAX_def)
qed

lemma euclid_ortho:
  "euclid (ortho p) (ortho q) =
     Fin (sqrt ((of_int (pt_x p - pt_x q) / 1000)\<^sup>2 + (of_int (pt_y p - pt_y q) / 1000)\<^sup>2))"
proof -
  have "\<not> (x * x + y * y < 0)" for x y :: real
    by (simp add: not_less)
  then show ?thesis
    by (simp add: euclid_def ortho_def dsqrt_def dadd_def dmul_def dsub_def dneg_def isnan_def
        power2_eq_square diff_divide_distrib)
qed

lemma twoFinger_lengths:
  "fingerLengths sceneExtern twoFingerHand = [(Fin (1 / 10), 0), (Fin (1 / 20), 1)]"
proof -
  have u: "[0..<2] = [0, Suc 0]"
    by (simp add: upt_rec)
  have a: "sqrt ((100 / 1000)\<^sup>2) = (1 / 10 :: real)"
    by (subst real_sqrt_abs) simp
  have b: "sqrt ((50 / 1000)\<^sup>2) = (1 / 20 :: real)"
    by (subst real_sqrt_abs) simp
  show ?thesis
    using a b
    by (simp add: fingerLengths_def twoFingerHand_def sceneHand_def sceneExtern_def
        euclid_ortho u)
qed


lemma sceneHand_bounds_one: "featureReadsInBounds sceneExtern oneFingerHand"
  by (simp add: featureReadsInBounds_def sceneExtern_def oneFingerHand_def sceneHand_def
      sceneContour_def)

lemma sceneHand_bounds_two: "featureReadsInBounds sceneExtern twoFingerHand"
  by (simp add: featureReadsInBounds_def sceneExtern_def twoFingerHand_def sceneHand_def
      sceneContour_def)

lemma oneFinger_sort: "sortFingerOrder (fingerLengths sceneExtern oneFingerHand) \<noteq> None"
  by (simp add: sortFingerOrder_def fingerLengths_def oneFingerHand_def sceneHand_def)

lemma twoFinger_trunc:
  "i < length (fingersXYZ twoFingerHand) \<Longrightarrow>
   d2i (euclideanDistance sceneExtern (fingersXYZ twoFingerHand ! i)
          (defectsXYZ twoFingerHand ! i)) = Some 0"
proof -
  assume "i < length (fingersXYZ twoFingerHand)"
  then have "i = 0 \<or> i = 1"
    by (auto simp: twoFingerHand_def sceneHand_def)
  moreover have "sqrt ((100 / 1000)\<^sup>2) = (1 / 10 :: real)"
    by (subst real_sqrt_abs) simp
  moreover have "sqrt ((50 / 1000)\<^sup>2) = (1 / 20 :: real)"
    by (subst real_sqrt_abs) simp
  ultimately show ?thesis
    by (auto simp: twoFingerHand_def sceneHand_def sceneExtern_def euclid_ortho d2i_small)
qed

text \<open>
  C1 (amended). Whenever \<^verbatim>\<open>extractHandFeatures\<close> returns, the vector has length 1 for a
  hand without fingers, \<open>1 + 12 + fingers \<times> 7\<close> for one finger and
  \<open>1 + 12 + fingers \<times> 11\<close> for more: the finger count, a block of twelve scalars, then 7
  or 11 entries per finger. It returns whenever its reads by index are in bounds and the
  sort of the finger lengths converts them to \<^verbatim>\<open>int\<close> without overflow.
\<close>

theorem extractHandFeatures_length:
  "(extractHandFeatures U hand depth_map top_left img_scale full_wid = Inr v \<longrightarrow>
      length v =
        (if getNumFingers hand = 0 then 1
         else if getNumFingers hand = 1 then 1 + 12 + nat (getNumFingers hand) * 7
         else 1 + 12 + nat (getNumFingers hand) * 11)) \<and>
   ((getNumFingers hand = 0 \<or> featureReadsInBounds U hand) \<and>
    sortFingerOrder (fingerLengths U hand) \<noteq> None \<longrightarrow>
      (\<exists>w. extractHandFeatures U hand depth_map top_left img_scale full_wid = Inr w))"
  using extract_length extract_returns by blast

lemma twoFinger_sort:
  "sortFingerOrder (fingerLengths sceneExtern twoFingerHand) \<noteq> None"
  using sortFingerOrder_equal_trunc [of twoFingerHand sceneExtern 0] twoFinger_trunc
  by simp

theorem extractHandFeatures_length_witness:
  "getNumFingers twoFingerHand = 2 \<and>
   (\<exists>v. extractHandFeatures sceneExtern twoFingerHand sceneMap (Point2i 0 0) (Fin 1) 200 = Inr v
        \<and> length v = 1 + 12 + 2 * 11)"
proof -
  have n: "getNumFingers twoFingerHand = 2"
    by (simp add: getNumFingers_def twoFingerHand_def sceneHand_def)
  from extractHandFeatures_length
    [of sceneExtern twoFingerHand sceneMap "Point2i 0 0" "Fin 1" 200]
    sceneHand_bounds_two twoFinger_sort
  obtain w where w: "extractHandFeatures sceneExtern twoFingerHand sceneMap (Point2i 0 0) (Fin 1) 200 = Inr w"
    by blast
  with extractHandFeatures_length
    [of sceneExtern twoFingerHand sceneMap "Point2i 0 0" "Fin 1" 200 w] n
  have "length w = 1 + 12 + 2 * 11"
    by simp
  with n w show ?thesis by blast
qed

text \<open>
  The claim as the specification words it (a block of eleven scalars) fails on the hand
  with one finger: the vector has 20 entries, not 19.
\<close>

theorem extractHandFeatures_length_counterexample:
  "map_sum id length
     (extractHandFeatures sceneExtern oneFingerHand sceneMap (Point2i 0 0) (Fin 1) 200) = Inr 20 \<and>
   claimedFeatureLength (getNumFingers oneFingerHand) = 19"
proof -
  have n: "getNumFingers oneFingerHand = 1"
    by (simp add: getNumFingers_def oneFingerHand_def sceneHand_def)
  obtain w where w: "extractHandFeatures sceneExtern oneFingerHand sceneMap (Point2i 0 0) (Fin 1) 200 = Inr w"
    using extract_returns [of oneFingerHand sceneExtern] sceneHand_bounds_one oneFinger_sort
    by blast
  from extract_length [OF w] n have "length w = 20"
    by simp
  with w n show ?thesis
    by (simp add: claimedFeatureLength_def)
qed

text \<open>
  C3. The sort that orders the fingers compares the lengths after their conversion to
  \<^verbatim>\<open>int\<close>. When all lengths truncate to the same integer (lengths are in metres, so
  for every hand with fingers shorter than a metre they all truncate to 0), the per-finger
  blocks appear by descending finger index, whatever the lengths are. On the hand with two
  fingers of 100 mm (index 0) and 50 mm (index 1), the block of the shorter finger comes
  first.
\<close>

theorem extractHandFeatures_finger_order:
  assumes "\<forall>i<length (fingersXYZ hand).
             d2i (euclideanDistance U (fingersXYZ hand ! i) (defectsXYZ hand ! i)) = Some t"
    and "featureReadsInBounds U hand"
    and "getNumFingers hand \<noteq> 0"
  shows "extractHandFeatures U hand depth_map top_left img_scale full_wid =
           Inr (sanitize ([of_int_d (getNumFingers hand)] @ scalarBlock U hand depth_map @
                  concat (map (fingerBlock U hand depth_map)
                            (rev [0..<length (fingersXYZ hand)]))))"
proof -
  have fo: "sortFingerOrder (fingerLengths U hand) = Some (rev (fingerLengths U hand))"
    using assms(1) by (intro sortFingerOrder_equal_trunc [where t = t]) simp
  have "map (\<lambda>p. fingerBlock U hand depth_map (nat (snd p))) (rev (fingerLengths U hand))
        = map (fingerBlock U hand depth_map) (rev [0..<length (fingersXYZ hand)])"
    by (simp add: fingerLengths_def rev_map comp_def)
  with fo assms(2,3) show ?thesis
    by (simp add: extractHandFeatures_def Let_def)
qed

theorem extractHandFeatures_finger_order_witness:
  "fingerLengths sceneExtern twoFingerHand = [(Fin (1 / 10), 0), (Fin (1 / 20), 1)] \<and>
   extractHandFeatures sceneExtern twoFingerHand sceneMap (Point2i 0 0) (Fin 1) 200 =
     Inr (sanitize ([Fin 2] @ scalarBlock sceneExtern twoFingerHand sceneMap @
            fingerBlock sceneExtern twoFingerHand sceneMap 1 @
            fingerBlock sceneExtern twoFingerHand sceneMap 0))"
proof -
  have h: "\<forall>i<length (fingersXYZ twoFingerHand).
             d2i (euclideanDistance sceneExtern (fingersXYZ twoFingerHand ! i)
                    (defectsXYZ twoFingerHand ! i)) = Some 0"
    using twoFinger_trunc by blast
  have n: "getNumFingers twoFingerHand \<noteq> 0"
    by (simp add: getNumFingers_def twoFingerHand_def sceneHand_def)
  have l: "length (fingersXYZ twoFingerHand) = 2" "getNumFingers twoFingerHand = 2"
    by (simp_all add: getNumFingers_def twoFingerHand_def sceneHand_def)
  have u: "rev [0..<2] = [Suc 0, 0]"
    by (simp add: upt_rec)
  show ?thesis
    using extractHandFeatures_finger_order
      [OF h sceneHand_bounds_two n, of sceneMap "Point2i 0 0" "Fin 1" 200]
    by (simp add: twoFinger_lengths l u of_int_d_def)
qed

lemma sanitizeEntry_ok: "\<not> isnan (sanitizeEntry x) \<and> \<not> dge (sanitizeEntry x) FLT_MAX"
  by (cases x)
    (auto simp: sanitizeEntry_def isnan_def dge_def dle_def dlt_def deq_def FLT_MAX_def)

text \<open>
  C9 (amended). Every vector \<^verbatim>\<open>extractHandFeatures\<close> returns holds no NaN and no value
  greater than or equal to \<^verbatim>\<open>FLT_MAX\<close>. The pass keeps the length, replaces a NaN entry by
  1.0, any other entry greater than or equal to \<^verbatim>\<open>FLT_MAX\<close> (positive infinity included)
  by 100.0, and leaves every other entry as it is.
\<close>

theorem extractHandFeatures_sanitized:
  "(extractHandFeatures U hand depth_map top_left img_scale full_wid = Inr v \<longrightarrow>
      list_all (\<lambda>x. \<not> isnan x \<and> \<not> dge x FLT_MAX) v) \<and>
   length (sanitize xs) = length xs \<and>
   (\<forall>i<length xs.
      sanitize xs ! i =
        (if isnan (xs ! i) then Fin 1 else if dge (xs ! i) FLT_MAX then Fin 100 else xs ! i))"
proof -
  have "list_all (\<lambda>x. \<not> isnan x \<and> \<not> dge x FLT_MAX) v"
    if "extractHandFeatures U hand depth_map top_left img_scale full_wid = Inr v"
  proof (cases "getNumFingers hand = 0")
    case True
    with that have "v = [Fin 0]"
      by (auto simp: extractHandFeatures_def Let_def of_int_d_def)
    then show ?thesis
      by (simp add: isnan_def dge_def dle_def dlt_def deq_def FLT_MAX_def)
  next
    case False
    with that obtain ys where "v = sanitize ys"
      by (auto simp: extractHandFeatures_def Let_def split: if_splits option.splits)
    then show ?thesis
      using sanitizeEntry_ok by (simp add: sanitize_def list_all_iff)
  qed
  then show ?thesis
    by (simp add: sanitize_def sanitizeEntry_def)
qed

theorem extractHandFeatures_sanitized_witness:
  "\<exists>v. extractHandFeatures sceneExtern oneFingerHand sceneMap (Point2i 0 0) (Fin 1) 200 = Inr v \<and>
       list_all (\<lambda>x. \<not> isnan x \<and> \<not> dge x FLT_MAX) v \<and>
       sanitize [NaN, PInf, Fin 3] ! 0 = Fin 1 \<and>
       sanitize [NaN, PInf, Fin 3] ! 1 = Fin 100 \<and>
       sanitize [NaN, PInf, Fin 3] ! 2 = Fin 3"
proof -
  obtain w where w: "extractHandFeatures sceneExtern oneFingerHand sceneMap (Point2i 0 0) (Fin 1) 200 = Inr w"
    using extract_returns [of oneFingerHand sceneExtern] sceneHand_bounds_one oneFinger_sort
    by blast
  have "list_all (\<lambda>x. \<not> isnan x \<and> \<not> dge x FLT_MAX) w"
    using extractHandFeatures_sanitized
      [of sceneExtern oneFingerHand sceneMap "Point2i 0 0" "Fin 1" 200 w "[NaN, PInf, Fin 3]"] w
    by blast
  moreover have "sanitize [NaN, PInf, Fin 3] ! 0 = Fin 1 \<and>
       sanitize [NaN, PInf, Fin 3] ! 1 = Fin 100 \<and>
       sanitize [NaN, PInf, Fin 3] ! 2 = Fin 3"
    using extractHandFeatures_sanitized
      [of sceneExtern oneFingerHand sceneMap "Point2i 0 0" "Fin 1" 200 w "[NaN, PInf, Fin 3]"]
    by (simp add: isnan_def dge_def dle_def dlt_def deq_def FLT_MAX_def)
  ultimately show ?thesis
    using w by blast
qed

text \<open>
  The claim as worded fails on negative infinity, which is neither NaN nor above the
  sentinel and so stays in the vector, and on positive infinity, which becomes 100.0 and
  not 1.0.
\<close>

theorem sanitize_counterexample:
  "sanitize [NInf, PInf] = [NInf, Fin 100] \<and> \<not> list_all isfinite (sanitize [NInf, PInf])"
  by (simp add: sanitize_def sanitizeEntry_def isnan_def isfinite_def dge_def dle_def dlt_def
      deq_def FLT_MAX_def)

section \<open>Properties of the finger filter and of the deduplication\<close>

lemma dlt_trans: "dlt a b \<Longrightarrow> dlt b c \<Longrightarrow> dlt a c"
  by (cases a; cases b; cases c) (simp_all add: dlt_def)

lemma dlt_not_nan: "dlt a b \<Longrightarrow> \<not> isnan a \<and> \<not> isnan b"
  by (cases a; cases b) (simp_all add: dlt_def isnan_def)

lemma minDistScan_below:
  assumes "\<not> isnan m"
  shows "dlt (minDistScan U d tips i js m) d =
           (dlt m d \<or> (\<exists>j\<in>set js. \<not> skipsNeighbour tips i j \<and>
                           dlt (euclideanDistance U (tips ! i) (tips ! j)) d))"
  using assms
proof (induction js arbitrary: m)
  case Nil
  show ?case by simp
next
  case (Cons j js)
  show ?case
  proof (cases "skipsNeighbour tips i j")
    case True
    with Cons show ?thesis by simp
  next
    case False
    define dist where "dist = euclideanDistance U (tips ! i) (tips ! j)"
    show ?thesis
    proof (cases "dlt dist m")
      case lt: True
      show ?thesis
      proof (cases "dlt dist d")
        case True
        with False lt show ?thesis
          by (simp add: dist_def [symmetric] Let_def)
      next
        case nd: False
        have nn: "\<not> isnan dist"
          using lt dlt_not_nan by blast
        have "\<not> dlt m d"
          using lt nd dlt_trans by blast
        with False lt nd Cons.IH [OF nn] show ?thesis
          by (simp add: dist_def [symmetric] Let_def)
      qed
    next
      case ge: False
      have "dlt dist d \<Longrightarrow> dlt m d"
      proof -
        assume dd: "dlt dist d"
        then have "\<not> isnan dist" using dlt_not_nan by blast
        with ge Cons.prems dd show "dlt m d"
          by (cases dist; cases m; cases d) (simp_all add: dlt_def isnan_def)
      qed
      with False ge Cons.IH [OF Cons.prems] show ?thesis
        by (auto simp: dist_def [symmetric] Let_def)
    qed
  qed
qed

lemma droppedByDedup_iff:
  "droppedByDedup U P tips i =
     (dlt DBL_MAX (fingerDistMin P) \<or>
      (\<exists>j<length tips. \<not> skipsNeighbour tips i j \<and>
          dlt (euclideanDistance U (tips ! i) (tips ! j)) (fingerDistMin P)))"
proof -
  have "\<not> isnan DBL_MAX"
    by (simp add: DBL_MAX_def isnan_def)
  from minDistScan_below [OF this, of U "fingerDistMin P" tips i "[0..<length tips]"]
  show ?thesis
    by (auto simp: droppedByDedup_def)
qed

lemma dedupFingers_lists:
  "fingersXYZ (foldl (dedupStep U sel) h js) =
     fingersXYZ h @ map (\<lambda>i. fingerTipsXyz sel ! i)
                      (filter (\<lambda>i. \<not> droppedByDedup U (params h) (fingerTipsXyz sel) i) js)
   \<and> params (foldl (dedupStep U sel) h js) = params h"
proof (induction js arbitrary: h)
  case Nil
  show ?case by simp
next
  case (Cons j js)
  have p: "params (dedupStep U sel h j) = params h"
    by (simp add: dedupStep_def Let_def)
  show ?case
    using Cons [of "dedupStep U sel h j"] p
    by (simp add: dedupStep_def Let_def)
qed


lemma euclid_ortho_sq: "euclid (ortho p) (ortho q) = Fin (sqrt (of_int (sqdist p q)) / 1000)"
proof -
  have n: "\<not> (x * x + y * y < 0)" for x y :: real
    by (simp add: not_less)
  have "sqrt ((x / 1000)\<^sup>2 + (y / 1000)\<^sup>2) = sqrt (x\<^sup>2 + y\<^sup>2) / 1000" for x y :: real
  proof -
    have eq: "(x / 1000)\<^sup>2 + (y / 1000)\<^sup>2 = (x\<^sup>2 + y\<^sup>2) / 1000\<^sup>2"
      by (simp add: power_divide add_divide_distrib)
    have "sqrt ((x\<^sup>2 + y\<^sup>2) / 1000\<^sup>2) = sqrt (x\<^sup>2 + y\<^sup>2) / sqrt (1000\<^sup>2)"
      by (rule real_sqrt_divide)
    also have "sqrt (1000\<^sup>2) = (1000 :: real)"
      by simp
    finally show ?thesis
      by (simp only: eq)
  qed
  from this [of "of_int (pt_x p - pt_x q)" "of_int (pt_y p - pt_y q)"] n show ?thesis
    by (simp add: euclid_def ortho_def dsqrt_def dadd_def dmul_def dsub_def dneg_def isnan_def
        sqdist_def power2_eq_square diff_divide_distrib)
qed

lemma sqrt_less_iff: "0 \<le> t \<Longrightarrow> (sqrt x < t) = (x < t\<^sup>2)"
  by (metis abs_of_nonneg real_sqrt_abs real_sqrt_less_iff)

lemma less_sqrt_iff: "0 \<le> t \<Longrightarrow> (t < sqrt x) = (t\<^sup>2 < x)"
  by (metis abs_of_nonneg real_sqrt_abs real_sqrt_less_iff)

lemma euclid_ortho_lt:
  "0 \<le> t \<Longrightarrow> dlt (euclid (ortho p) (ortho q)) (Fin t) = (of_int (sqdist p q) < (1000 * t)\<^sup>2)"
proof -
  assume t: "0 \<le> t"
  have "(sqrt (of_int (sqdist p q)) / 1000 < t) = (sqrt (of_int (sqdist p q)) < 1000 * t)"
    by (simp add: field_simps)
  also have "\<dots> = (of_int (sqdist p q) < (1000 * t)\<^sup>2)"
    using t by (intro sqrt_less_iff) simp
  finally show ?thesis
    by (simp add: euclid_ortho_sq dlt_def)
qed

lemma euclid_ortho_gt:
  "0 \<le> t \<Longrightarrow> dlt (Fin t) (euclid (ortho p) (ortho q)) = ((1000 * t)\<^sup>2 < of_int (sqdist p q))"
proof -
  assume t: "0 \<le> t"
  have "(t < sqrt (of_int (sqdist p q)) / 1000) = (1000 * t < sqrt (of_int (sqdist p q)))"
    by (simp add: field_simps)
  also have "\<dots> = ((1000 * t)\<^sup>2 < of_int (sqdist p q))"
    using t by (intro less_sqrt_iff) simp
  finally show ?thesis
    by (simp add: euclid_ortho_sq dlt_def)
qed

lemma closeTips_dist:
  "dlt (euclid (ortho (Point2i 35 5)) (ortho (Point2i 40 5))) (Fin (1 / 100))"
  by (subst euclid_ortho_lt) (simp_all add: sqdist_def)

text \<open>
  C8 (amended). A candidate \<open>i\<close> is dropped exactly when \<^verbatim>\<open>fingerDistMin\<close> exceeds
  \<^verbatim>\<open>DBL_MAX\<close> or some candidate \<open>j\<close> is closer to it than \<^verbatim>\<open>fingerDistMin\<close> and is not
  skipped by the inner loop: the second 3D coordinate of \<open>i\<close> is not greater than that of
  \<open>j\<close>, and where the two are equal, \<open>j\<close> has the larger index. The fingers pushed are the
  candidates that are not dropped, in their order.
\<close>

theorem dedup_rule:
  "droppedByDedup U P tips i =
     (dlt DBL_MAX (fingerDistMin P) \<or>
      (\<exists>j<length tips.
          \<not> (dgt (v1 (tips ! i)) (v1 (tips ! j)) \<or> (deq (v1 (tips ! i)) (v1 (tips ! j)) \<and> j \<le> i)) \<and>
          dlt (euclideanDistance U (tips ! i) (tips ! j)) (fingerDistMin P))) \<and>
   fingersXYZ (dedupFingers U h sel) =
     fingersXYZ h @
     map (\<lambda>i. fingerTipsXyz sel ! i)
       (filter (\<lambda>i. \<not> droppedByDedup U (params h) (fingerTipsXyz sel) i)
          [0..<length (fingerTipsXyz sel)])"
  using droppedByDedup_iff [of U P tips i] dedupFingers_lists [of U sel h]
  by (simp add: skipsNeighbour_def dedupFingers_def)

lemma closeTips_nth:
  "closeTips ! 0 = ortho (Point2i 35 5)" "closeTips ! Suc 0 = ortho (Point2i 40 5)"
  "length closeTips = 2"
  by (simp_all add: closeTips_def closeTipsIj_def)

lemma ex_less_two: "(\<exists>j<2. Q j) = (Q 0 \<or> Q (Suc 0))"
  by (auto simp: less_2_cases_iff)

theorem dedup_rule_witness:
  "droppedByDedup sceneExtern DEFAULT closeTips 0 \<and>
   \<not> droppedByDedup sceneExtern DEFAULT closeTips 1"
proof -
  have y: "v1 (ortho (Point2i 35 5)) = Fin (5 / 1000)" "v1 (ortho (Point2i 40 5)) = Fin (5 / 1000)"
    by (simp_all add: ortho_def)
  have m: "\<not> dlt DBL_MAX (fingerDistMin DEFAULT)"
    by (simp add: DBL_MAX_def DEFAULT_def dlt_def)
  have e: "euclideanDistance sceneExtern = euclid"
    by (simp add: sceneExtern_def)
  have "droppedByDedup sceneExtern DEFAULT closeTips 0"
    using dedup_rule [of sceneExtern DEFAULT closeTips 0] closeTips_dist
    by (simp add: closeTips_nth ex_less_two y e dgt_def dlt_def deq_def isnan_def DEFAULT_def)
  moreover have "\<not> droppedByDedup sceneExtern DEFAULT closeTips 1"
    using dedup_rule [of sceneExtern DEFAULT closeTips 1] m
    by (simp add: closeTips_nth ex_less_two y e dgt_def dlt_def deq_def isnan_def)
  ultimately show ?thesis by simp
qed

text \<open>
  The claim as worded fails on two tips 5 mm apart on the same row: neither has a
  strictly smaller row than the other, and the first is dropped.
\<close>

theorem dedup_rule_counterexample:
  "droppedByDedup sceneExtern DEFAULT closeTips 0 \<and>
   \<not> claimedDropped sceneExtern DEFAULT closeTipsIj closeTips 0"
proof -
  have y: "v1 (ortho (Point2i 35 5)) = Fin (5 / 1000)" "v1 (ortho (Point2i 40 5)) = Fin (5 / 1000)"
    by (simp_all add: ortho_def)
  have e: "euclideanDistance sceneExtern = euclid"
    by (simp add: sceneExtern_def)
  have "droppedByDedup sceneExtern DEFAULT closeTips 0"
    using droppedByDedup_iff [of sceneExtern DEFAULT closeTips 0] closeTips_dist
    by (simp add: closeTips_nth ex_less_two y e skipsNeighbour_def dgt_def dlt_def deq_def
        isnan_def DEFAULT_def)
  moreover have "\<not> claimedDropped sceneExtern DEFAULT closeTipsIj closeTips 0"
    by (simp add: claimedDropped_def closeTips_nth closeTipsIj_def upt_rec)
  ultimately show ?thesis by simp
qed

text \<open>
  C2. Of the three curvature samples of candidate \<open>i\<close> in the finger filter, the near and
  the far one are centred at the tip's contour index; the middle one is centred at
  \<^verbatim>\<open>indexHull[i]\<close>, the \<open>i\<close>-th hull index, where \<open>i\<close> counts the candidates. The
  windows are \<open>max(2, arc/20)\<close> wide 4, \<open>max(2, arc/5)\<close> wide 5 and \<open>max(2, 9 arc/10)\<close>
  wide 5. In the scene, candidate 0 has its tip at index 10 and its middle sample at
  index 59.
\<close>

theorem candidateCurves_centres:
  "candidateCurves U h tipCands i points_to_defect =
     (contourCurvature U (contour h) (tipCands ! i)
        (max 2 (points_to_defect div 20)) (max 2 (points_to_defect div 20) + 4),
      contourCurvature U (contour h) (indexHull h ! i)
        (max 2 (points_to_defect div 5)) (max 2 (points_to_defect div 5) + 5),
      contourCurvature U (contour h) (tipCands ! i)
        (max 2 (points_to_defect * 9 div 10)) (max 2 (points_to_defect * 9 div 10) + 5))"
  by (simp add: candidateCurves_def curve_near_lo_def curve_mid_lo_def curve_far_lo_def)

theorem candidateCurves_centres_witness:
  "indexHull (locatePalm probeExtern sceneHand) = [59, 30, 10, 1] \<and>
   candidateCurves probeExtern (locatePalm probeExtern sceneHand) [10, 30] 0 10 =
     (Fin 10, Fin 59, Fin 10)"
  using candidateCurves_centres [of probeExtern "locatePalm probeExtern sceneHand" "[10, 30]" 0 10]
  by (simp add: probeExtern_def sceneExtern_def locatePalm_def Let_def sceneHullIdx_def
      of_int_d_def)

section \<open>Properties of the evaluation\<close>

subsection \<open>The landmark lists through the phases\<close>

lemma locatePalm_landmarks:
  "fingersIJ (locatePalm U h) = fingersIJ h \<and> fingersXYZ (locatePalm U h) = fingersXYZ h \<and>
   defectsIJ (locatePalm U h) = defectsIJ h \<and> defectsXYZ (locatePalm U h) = defectsXYZ h \<and>
   wristXYZ (locatePalm U h) = wristXYZ h \<and> wristIJ (locatePalm U h) = wristIJ h \<and>
   params (locatePalm U h) = params h"
  by (simp add: locatePalm_def Let_def split: prod.splits)

lemma recordWrist_landmarks:
  "fingersIJ (fst (recordWrist U h l r)) = fingersIJ h \<and>
   fingersXYZ (fst (recordWrist U h l r)) = fingersXYZ h \<and>
   defectsIJ (fst (recordWrist U h l r)) = defectsIJ h \<and>
   defectsXYZ (fst (recordWrist U h l r)) = defectsXYZ h"
  by (simp add: recordWrist_def Let_def)

lemma dedupStep_aligned: "landmarksAligned h \<Longrightarrow> landmarksAligned (dedupStep U sel h i)"
  by (simp add: dedupStep_def landmarksAligned_def Let_def)

lemma dedupFingers_aligned: "landmarksAligned h \<Longrightarrow> landmarksAligned (dedupFingers U h sel)"
proof -
  have "landmarksAligned h \<Longrightarrow> landmarksAligned (foldl (dedupStep U sel) h js)" for js
    by (induction js arbitrary: h) (simp_all add: dedupStep_aligned)
  then show "landmarksAligned h \<Longrightarrow> landmarksAligned (dedupFingers U h sel)"
    by (simp add: dedupFingers_def)
qed

lemma pushBestDefect_lists:
  "fingersIJ (pushBestDefect h b) = fingersIJ h \<and> fingersXYZ (pushBestDefect h b) = fingersXYZ h \<and>
   length (defectsIJ (pushBestDefect h b)) = Suc (length (defectsIJ h)) \<and>
   length (defectsXYZ (pushBestDefect h b)) = Suc (length (defectsXYZ h))"
  by (simp add: pushBestDefect_def)

lemma clearLandmarks_aligned: "landmarksAligned (clearLandmarks h)"
  by (simp add: clearLandmarks_def landmarksAligned_def)

lemma singleFingerFilter_cases:
  "singleFingerFilter U h bi fi xyz = h \<or> singleFingerFilter U h bi fi xyz = clearLandmarks h"
  by (simp add: singleFingerFilter_def Let_def)

lemma singleFinger_aligned: "landmarksAligned (singleFinger U h defects gd)"
proof -
  define h1 where "h1 = h \<lparr> fingersXYZ := [], fingersIJ := [] \<rparr>"
  define h2 where "h2 = h1 \<lparr> defectsIJ := [], defectsXYZ := [] \<rparr>"
  have a2: "landmarksAligned h2"
    by (simp add: h2_def h1_def landmarksAligned_def)
  have a4: "landmarksAligned
              (pushBestDefect (h2 \<lparr> fingersXYZ := fingersXYZ h2 @ [x], fingersIJ := fingersIJ h2 @ [y] \<rparr>) b)"
    for x y b
    using pushBestDefect_lists
      [of "h2 \<lparr> fingersXYZ := fingersXYZ h2 @ [x], fingersIJ := fingersIJ h2 @ [y] \<rparr>" b]
    by (simp add: landmarksAligned_def h2_def h1_def)
  have a5: "landmarksAligned (singleFingerFilter U g bi fi xyz)" if "landmarksAligned g" for g bi fi xyz
    using singleFingerFilter_cases [of U g bi fi xyz] that clearLandmarks_aligned [of g]
    by auto
  show ?thesis
    unfolding singleFinger_def Let_def h1_def [symmetric] h2_def [symmetric]
    using a2 a4 a5 by (simp only: split: if_splits) blast
qed



lemma acceptanceGate_result:
  assumes "acceptanceGate U h = Inr (b, h')"
  shows "fingersIJ h' = fingersIJ h \<and> fingersXYZ h' = fingersXYZ h \<and>
         defectsIJ h' = defectsIJ h \<and> defectsXYZ h' = defectsXYZ h \<and>
         (b \<longrightarrow> 1 \<le> length (fingersIJ h) \<and> length (fingersIJ h) \<le> 6)"
proof (cases "length (fingersIJ h) > 6 \<or> length (fingersIJ h) < 1")
  case True
  with assms show ?thesis
    by (simp add: acceptanceGate_def)
next
  case False
  then have r: "1 \<le> length (fingersIJ h) \<and> length (fingersIJ h) \<le> 6"
    by arith
  from assms False have "fingersIJ h' = fingersIJ h \<and> fingersXYZ h' = fingersXYZ h \<and>
         defectsIJ h' = defectsIJ h \<and> defectsXYZ h' = defectsXYZ h"
    by (auto simp: acceptanceGate_def Let_def split: if_splits sum.splits)
  with r show ?thesis by simp
qed

lemma acceptanceGate_rejects:
  "length (fingersIJ h) < 1 \<or> 6 < length (fingersIJ h) \<Longrightarrow> acceptanceGate U h = Inr (False, h)"
  by (auto simp: acceptanceGate_def)

lemma detectFingers_result:
  assumes "detectFingers U h defects0 direction wristL wristR = Inr (b, h')"
    and "landmarksAligned h"
  shows "landmarksAligned h' \<and> (b \<longrightarrow> 1 \<le> length (fingersIJ h') \<and> length (fingersIJ h') \<le> 6)"
proof -
  define defects where "defects = sortDefects U (defectComparer U h) defects0"
  define scan where "scan = scanDefects U h direction wristL wristR defects"
  define res where "res = selectFingers U h (fingerTipCands scan) (fingerDefectCands scan)"
  have d: "detectFingers U h defects0 direction wristL wristR =
      (case res of
         Inl e \<Rightarrow> Inl e
       | Inr sel \<Rightarrow>
           acceptanceGate U
             (if length (fingersXYZ (dedupFingers U h sel)) \<le> 1
              then singleFinger U (dedupFingers U h sel) defects (goodDefects scan)
              else dedupFingers U h sel))"
    unfolding detectFingers_def Let_def res_def scan_def defects_def by (rule refl)
  show ?thesis
  proof (cases res)
    case (Inl e)
    with d assms(1) show ?thesis by simp
  next
    case (Inr sel)
    define g where "g = (if length (fingersXYZ (dedupFingers U h sel)) \<le> 1
           then singleFinger U (dedupFingers U h sel) defects (goodDefects scan)
           else dedupFingers U h sel)"
    have ag: "acceptanceGate U g = Inr (b, h')"
      using d assms(1) Inr by (simp add: g_def)
    have "landmarksAligned g"
      using dedupFingers_aligned [OF assms(2)] singleFinger_aligned by (simp add: g_def)
    with acceptanceGate_result [OF ag] show ?thesis
      by (simp add: landmarksAligned_def)
  qed
qed

lemma checkForHand_unfold:
  assumes "\<not> (length (points h) = 0 \<or> num_points h = 0)"
    and "findContacts U (locatePalm U h) = (contactL, contactR)"
    and "direction = (if contactL \<ge> 0 \<and> contactR \<ge> 0
                      then walkDirection (length (contour (locatePalm U h))) contactL contactR
                      else 1)"
  shows "checkForHand U h =
     (case findWrist U (locatePalm U h) contactL contactR direction of
        None \<Rightarrow> Inl LoopDiverges
      | Some (wristL, wristR) \<Rightarrow>
          if wristL < 0 \<or> wristR < 0 then Inr (False, locatePalm U h)
          else
            (case recordWrist U (locatePalm U h) wristL wristR of
               (h2, wristWidth) \<Rightarrow>
                 if dlt wristWidth (wristWidthMin (params h2)) \<or>
                    dgt wristWidth (wristWidthMax (params h2))
                 then Inr (False, h2)
                 else detectFingers U h2 (computeDefects U (locatePalm U h)) direction wristL wristR))"
  unfolding assms(3) checkForHand_def Let_def using assms(1,2) by simp

lemma checkForHand_result:
  assumes "checkForHand U h = Inr (b, h')" and "landmarksAligned h"
  shows "landmarksAligned h' \<and> (b \<longrightarrow> 1 \<le> length (fingersIJ h') \<and> length (fingersIJ h') \<le> 6)"
proof (cases "length (points h) = 0 \<or> num_points h = 0")
  case True
  with assms show ?thesis
    by (auto simp: checkForHand_def)
next
  case False
  define h1 where "h1 = locatePalm U h"
  obtain contactL contactR where c: "findContacts U (locatePalm U h) = (contactL, contactR)"
    by (cases "findContacts U (locatePalm U h)") simp
  define direction where "direction = (if contactL \<ge> 0 \<and> contactR \<ge> 0
                      then walkDirection (length (contour (locatePalm U h))) contactL contactR
                      else 1)"
  note u = checkForHand_unfold [OF False c direction_def]
  have a1: "landmarksAligned (locatePalm U h)"
    using assms(2) locatePalm_landmarks [of U h] by (simp add: landmarksAligned_def)
  have a2: "landmarksAligned (fst (recordWrist U (locatePalm U h) l r))" for l r
    using a1 recordWrist_landmarks [of U "locatePalm U h" l r]
    by (simp add: landmarksAligned_def)
  show ?thesis
  proof (cases "findWrist U (locatePalm U h) contactL contactR direction")
    case None
    with u assms(1) show ?thesis by simp
  next
    case (Some w)
    obtain wristL wristR where w: "w = (wristL, wristR)"
      by (cases w) simp
    show ?thesis
    proof (cases "wristL < 0 \<or> wristR < 0")
      case True
      with u assms(1) Some w a1 show ?thesis by auto
    next
      case nonneg: False
      obtain h2 wristWidth where rw: "recordWrist U (locatePalm U h) wristL wristR = (h2, wristWidth)"
        by (cases "recordWrist U (locatePalm U h) wristL wristR") simp
      have ah2: "landmarksAligned h2"
        using a2 [of wristL wristR] rw by simp
      show ?thesis
      proof (cases "dlt wristWidth (wristWidthMin (params h2)) \<or>
                    dgt wristWidth (wristWidthMax (params h2))")
        case True
        with u assms(1) Some w nonneg rw ah2 show ?thesis by auto
      next
        case False
        with u assms(1) Some w nonneg rw
        have "detectFingers U h2 (computeDefects U (locatePalm U h)) direction wristL wristR
                = Inr (b, h')"
          by simp
        from detectFingers_result [OF this ah2] show ?thesis .
      qed
    qed
  qed
qed

subsection \<open>The inward walks\<close>

lemma wristWalk_near: "near i \<Longrightarrow> wristWalk near n step stop i = Some i"
  by (subst wristWalk.simps) simp

lemma wristWalk_far:
  "\<not> near i \<Longrightarrow>
   wristWalk near n step stop i =
     (if (i + step + n) mod n \<noteq> stop then wristWalk near n step stop ((i + step + n) mod n)
      else Some (- 1))"
  by (subst wristWalk.simps) (simp add: Let_def)

lemma mod_range: "0 < (n::int) \<Longrightarrow> k * n \<le> y \<Longrightarrow> y < (k + 1) * n \<Longrightarrow> y mod n = y - k * n"
proof -
  assume n: "0 < n" and lo: "k * n \<le> y" and hi: "y < (k + 1) * n"
  have "(y + (- k) * n) mod n = y mod n"
    by (rule mod_mult_self1)
  then have "y mod n = (y - k * n) mod n"
    by simp
  also have "\<dots> = y - k * n"
    using lo hi by (intro mod_pos_pos_trivial) (simp_all add: algebra_simps)
  finally show ?thesis .
qed

lemma next_index:
  assumes "0 < (n::int)" "step = 1 \<or> step = - 1" "0 \<le> i" "i < n"
  shows "(i + step + n) mod n =
           (if step = 1 then (if i + 1 < n then i + 1 else 0)
            else (if i = 0 then n - 1 else i - 1))"
proof -
  have a: "i + 1 < n \<Longrightarrow> (i + 1 + n) mod n = i + 1"
    using assms mod_range [of n 1 "i + 1 + n"] by simp
  have b: "\<not> i + 1 < n \<Longrightarrow> (i + 1 + n) mod n = 0"
    using assms mod_range [of n 2 "i + 1 + n"] by simp
  have c: "i = 0 \<Longrightarrow> (i - 1 + n) mod n = n - 1"
    using assms mod_range [of n 0 "i - 1 + n"] by simp
  have d: "i \<noteq> 0 \<Longrightarrow> (i - 1 + n) mod n = i - 1"
    using assms mod_range [of n 1 "i - 1 + n"] by simp
  from assms(2) a b c d show ?thesis
    by auto
qed

lemma walkLength_explicit:
  assumes "0 < (n::int)" "step = 1 \<or> step = - 1" "0 \<le> i" "i < n" "0 \<le> stop" "stop < n"
  shows "int (walkLength n step stop i) =
           (if step = 1 then (if i < stop then stop - i else stop - i + n)
            else (if stop < i then i - stop else i - stop + n))"
proof -
  have a: "i < stop \<Longrightarrow> (stop - i - 1) mod n = stop - i - 1"
    using assms mod_range [of n 0 "stop - i - 1"] by simp
  have b: "\<not> i < stop \<Longrightarrow> (stop - i - 1) mod n = stop - i - 1 + n"
    using assms mod_range [of n "- 1" "stop - i - 1"] by simp
  have c: "stop < i \<Longrightarrow> (i - stop - 1) mod n = i - stop - 1"
    using assms mod_range [of n 0 "i - stop - 1"] by simp
  have d: "\<not> stop < i \<Longrightarrow> (i - stop - 1) mod n = i - stop - 1 + n"
    using assms mod_range [of n "- 1" "i - stop - 1"] by simp
  from assms(2) show ?thesis
  proof
    assume s: "step = 1"
    then show ?thesis
      using a b assms by (auto simp: walkLength_def)
  next
    assume s: "step = - 1"
    then have "(stop - i) * step - 1 = i - stop - 1"
      by simp
    with s show ?thesis
      using c d assms by (auto simp: walkLength_def)
  qed
qed

lemma walkSample_0: "0 < n \<Longrightarrow> 0 \<le> i \<Longrightarrow> i < n \<Longrightarrow> walkSample n step i 0 = i"
  by (simp add: walkSample_def)

lemma walkSample_Suc:
  "walkSample n step ((i + step + n) mod n) k = walkSample n step i (Suc k)"
proof -
  have "((i + step + n) mod n + int k * step) mod n = (i + step + n + int k * step) mod n"
    by (rule mod_add_left_eq)
  also have "i + step + n + int k * step = (i + (int k + 1) * step) + 1 * n"
    by (simp add: algebra_simps)
  also have "(i + (int k + 1) * step + 1 * n) mod n = (i + (int k + 1) * step) mod n"
    by (rule mod_mult_self1)
  finally show ?thesis
    by (simp add: walkSample_def algebra_simps)
qed

lemma walkSample_Suc':
  "walkSample n step ((i + step) mod n) k = walkSample n step i (Suc k)"
  using walkSample_Suc [of n step i k] by simp

lemma wristWalk_result:
  assumes "0 < (n::int)" "step = 1 \<or> step = - 1" "0 \<le> stop" "stop < n"
  shows "0 \<le> i \<Longrightarrow> i < n \<Longrightarrow> walkLength n step stop i = Suc m \<Longrightarrow>
         wristWalk near n step stop i =
           (case find near (map (walkSample n step i) [0..<Suc m]) of
              None \<Rightarrow> Some (- 1)
            | Some w \<Rightarrow> Some w)"
proof (induction m arbitrary: i)
  case 0
  have L: "int (walkLength n step stop i) = 1"
    using 0 by simp
  have nx: "(i + step + n) mod n = stop"
    using L walkLength_explicit [OF assms(1,2) 0(1,2) assms(3,4)]
      next_index [OF assms(1,2) 0(1,2)] assms 0(1,2)
    by (auto split: if_splits)
  show ?case
  proof (cases "near i")
    case True
    then show ?thesis
      using 0 assms by (simp add: wristWalk_near walkSample_0)
  next
    case False
    then show ?thesis
      using 0 assms nx by (simp add: wristWalk_far walkSample_0)
  qed
next
  case (Suc m)
  define i' where "i' = (i + step + n) mod n"
  have r: "0 \<le> i'" "i' < n"
    using assms(1) by (simp_all add: i'_def)
  have L: "int (walkLength n step stop i) = int m + 2"
    using Suc.prems by simp
  have nx: "i' \<noteq> stop"
    using L walkLength_explicit [OF assms(1,2) Suc.prems(1,2) assms(3,4)]
      next_index [OF assms(1,2) Suc.prems(1,2)] assms Suc.prems(1,2)
    by (auto simp: i'_def split: if_splits)
  have "int (walkLength n step stop i') = int m + 1"
    using L walkLength_explicit [OF assms(1,2) Suc.prems(1,2) assms(3,4)]
      walkLength_explicit [OF assms(1,2) r assms(3,4)]
      next_index [OF assms(1,2) Suc.prems(1,2)] assms Suc.prems(1,2) nx
    by (auto simp: i'_def split: if_splits)
  then have L': "walkLength n step stop i' = Suc m"
    by simp
  have samples: "map (walkSample n step i) [0..<Suc (Suc m)] =
                   i # map (walkSample n step i') [0..<Suc m]"
  proof -
    have "[0..<Suc (Suc m)] = 0 # map Suc [0..<Suc m]"
      by (subst upt_conv_Cons) (simp_all add: map_Suc_upt del: upt_Suc)
    then have "map (walkSample n step i) [0..<Suc (Suc m)] =
               walkSample n step i 0 # map (\<lambda>k. walkSample n step i (Suc k)) [0..<Suc m]"
      by (simp add: comp_def del: upt_Suc)
    then show ?thesis
      using assms(1) Suc.prems(1,2)
      by (simp add: walkSample_0 walkSample_Suc' i'_def del: upt_Suc)
  qed
  show ?case
  proof (cases "near i")
    case True
    then show ?thesis
      by (simp only: samples wristWalk_near) simp
  next
    case False
    have "wristWalk near n step stop i = wristWalk near n step stop i'"
      using False nx by (simp add: wristWalk_far i'_def)
    also have "\<dots> = (case find near (map (walkSample n step i') [0..<Suc m]) of
              None \<Rightarrow> Some (- 1) | Some w \<Rightarrow> Some w)"
      using Suc.IH [OF r L'] .
    finally show ?thesis
      using False by (simp only: samples) simp
  qed
qed

subsection \<open>The evaluation returns\<close>

lemma contactStep_choice:
  "(fst (contactStep U h st i) = fst st \<or> fst (contactStep U h st i) = int i) \<and>
   (snd (contactStep U h st i) = snd st \<or> snd (contactStep U h st i) = int i)"
  by (cases st) (simp add: contactStep_def Let_def)

lemma findContacts_fold_range:
  assumes "\<forall>j\<in>set js. j < n"
    and "fst st = - 1 \<or> (0 \<le> fst st \<and> fst st < int n)"
    and "snd st = - 1 \<or> (0 \<le> snd st \<and> snd st < int n)"
  shows "(fst (foldl (contactStep U h) st js) = - 1 \<or>
          (0 \<le> fst (foldl (contactStep U h) st js) \<and> fst (foldl (contactStep U h) st js) < int n)) \<and>
         (snd (foldl (contactStep U h) st js) = - 1 \<or>
          (0 \<le> snd (foldl (contactStep U h) st js) \<and> snd (foldl (contactStep U h) st js) < int n))"
  using assms
proof (induction js arbitrary: st)
  case Nil
  then show ?case by simp
next
  case (Cons j js)
  have j: "j < n" using Cons.prems(1) by simp
  have a: "fst (contactStep U h st j) = - 1 \<or>
           (0 \<le> fst (contactStep U h st j) \<and> fst (contactStep U h st j) < int n)"
    using contactStep_choice [of U h st j] Cons.prems(2) j by auto
  have b: "snd (contactStep U h st j) = - 1 \<or>
           (0 \<le> snd (contactStep U h st j) \<and> snd (contactStep U h st j) < int n)"
    using contactStep_choice [of U h st j] Cons.prems(3) j by auto
  from Cons.IH [OF _ a b] Cons.prems(1) show ?case
    by simp
qed

lemma findContacts_range:
  assumes "findContacts U h = (contactL, contactR)"
  shows "(contactL = - 1 \<or> (0 \<le> contactL \<and> contactL < int (length (contour h)))) \<and>
         (contactR = - 1 \<or> (0 \<le> contactR \<and> contactR < int (length (contour h))))"
  using findContacts_fold_range [of "[0..<length (contour h)]" "length (contour h)" "(- 1, - 1)" U h]
    assms
  by (simp add: findContacts_def)

lemma walkDirection_unit: "walkDirection n l r = 1 \<or> walkDirection n l r = - 1"
  by (simp add: walkDirection_def)

lemma walkLength_pos: "\<exists>m. walkLength n step stop i = Suc m"
  by (simp add: walkLength_def)

lemma wristWalk_defined:
  assumes "0 < (n::int)" "step = 1 \<or> step = - 1" "0 \<le> stop" "stop < n" "0 \<le> i" "i < n"
  shows "\<exists>w. wristWalk near n step stop i = Some w"
proof -
  obtain m where m: "walkLength n step stop i = Suc m"
    using walkLength_pos by blast
  show ?thesis
    using wristWalk_result [OF assms(1-4) assms(5,6) m, of near]
    by (auto split: option.splits)
qed

lemma wristWalk_exhausted:
  assumes "0 < (n::int)" "step = 1 \<or> step = - 1" "0 \<le> stop" "stop < n" "0 \<le> i" "i < n"
    and "\<forall>k<walkLength n step stop i. \<not> near (walkSample n step i k)"
  shows "wristWalk near n step stop i = Some (- 1)"
proof -
  obtain m where m: "walkLength n step stop i = Suc m"
    using walkLength_pos by blast
  have "find near (map (walkSample n step i) [0..<Suc m]) = None"
    using assms(7) m by (auto simp: find_None_iff)
  with wristWalk_result [OF assms(1-4) assms(5,6) m, of near] show ?thesis
    by simp
qed

lemma findWrist_defined:
  assumes "findContacts U h = (contactL, contactR)"
    and "direction = 1 \<or> direction = - 1"
  shows "\<exists>w. findWrist U h contactL contactR direction = Some w"
proof (cases "contactL \<ge> 0 \<and> contactR \<ge> 0")
  case False
  then show ?thesis
    by (auto simp: findWrist_def)
next
  case True
  with findContacts_range [OF assms(1)]
  have r: "0 \<le> contactL" "contactL < int (length (contour h))"
          "0 \<le> contactR" "contactR < int (length (contour h))"
    by auto
  then have n: "0 < int (length (contour h))"
    by linarith
  have d': "- direction = 1 \<or> - direction = - 1"
    using assms(2) by auto
  obtain wl where wl: "wristWalk (nearPalm U h) (int (length (contour h))) direction contactR contactL = Some wl"
    using wristWalk_defined [OF n assms(2) r(3,4) r(1,2)] by blast
  obtain wr where wr: "wristWalk (nearPalm U h) (int (length (contour h))) (- direction) contactL contactR = Some wr"
    using wristWalk_defined [OF n d' r(1,2) r(3,4)] by blast
  from True wl wr show ?thesis
    by (simp add: findWrist_def)
qed

lemma checkForHand_terminates: "checkForHand U h \<noteq> Inl LoopDiverges"
proof (cases "length (points h) = 0 \<or> num_points h = 0")
  case True
  then show ?thesis
    by (auto simp: checkForHand_def)
next
  case False
  obtain contactL contactR where c: "findContacts U (locatePalm U h) = (contactL, contactR)"
    by (cases "findContacts U (locatePalm U h)") simp
  define direction where "direction = (if contactL \<ge> 0 \<and> contactR \<ge> 0
                      then walkDirection (length (contour (locatePalm U h))) contactL contactR
                      else 1)"
  note u = checkForHand_unfold [OF False c direction_def]
  have "direction = 1 \<or> direction = - 1"
    using walkDirection_unit by (simp add: direction_def)
  from findWrist_defined [OF c this] obtain w where
    w: "findWrist U (locatePalm U h) contactL contactR direction = Some w"
    by blast
  obtain wristL wristR where wp: "w = (wristL, wristR)"
    by (cases w) simp
  show ?thesis
  proof (cases "wristL < 0 \<or> wristR < 0")
    case True
    with u w wp show ?thesis by auto
  next
    case nonneg: False
    obtain h2 wristWidth where rw: "recordWrist U (locatePalm U h) wristL wristR = (h2, wristWidth)"
      by (cases "recordWrist U (locatePalm U h) wristL wristR") simp
    show ?thesis
    proof (cases "dlt wristWidth (wristWidthMin (params h2)) \<or>
                  dgt wristWidth (wristWidthMax (params h2))")
      case True
      with u w wp nonneg rw show ?thesis by auto
    next
      case False
      have "detectFingers U h2 ds direction wristL wristR \<noteq> Inl LoopDiverges" for ds
      proof -
        have "acceptanceGate U g \<noteq> Inl LoopDiverges" for g
          by (auto simp: acceptanceGate_def Let_def extractHandFeatures_def classify_def
              split: sum.splits option.splits if_splits)
        moreover have "selectFingers U h2 tc dc \<noteq> Inl LoopDiverges" for tc dc
        proof -
          have "acc \<noteq> Inl LoopDiverges \<Longrightarrow> foldl (selectStep U h2 tc dc) acc js \<noteq> Inl LoopDiverges"
            for acc js
          proof (induction js arbitrary: acc)
            case Nil
            then show ?case by simp
          next
            case (Cons j js)
            have "selectStep U h2 tc dc acc j \<noteq> Inl LoopDiverges"
              using Cons.prems
              by (auto simp: selectStep_def Let_def split: sum.splits prod.splits if_splits)
            from Cons.IH [OF this] show ?case by simp
          qed
          then show ?thesis
            by (simp add: selectFingers_def)
        qed
        ultimately show ?thesis
          unfolding detectFingers_def Let_def
          by (auto split: sum.splits)
      qed
      with u w wp nonneg rw False show ?thesis by auto
    qed
  qed
qed

subsection \<open>Rejection at the wrist\<close>

lemma wristWalk_rejects:
  assumes "length (points h) \<noteq> 0" and "num_points h \<noteq> 0"
    and "findContacts U (locatePalm U h) = (contactL, contactR)"
    and "direction = walkDirection (length (contour (locatePalm U h))) contactL contactR"
    and "n = int (length (contour (locatePalm U h)))"
    and "(\<forall>k<walkLength n direction contactR contactL.
            \<not> nearPalm U (locatePalm U h) (walkSample n direction contactL k)) \<or>
         (\<forall>k<walkLength n (- direction) contactL contactR.
            \<not> nearPalm U (locatePalm U h) (walkSample n (- direction) contactR k))"
  shows "checkForHand U h = Inr (False, locatePalm U h)"
proof -
  have ne: "\<not> (length (points h) = 0 \<or> num_points h = 0)"
    using assms(1,2) by simp
  define dir where "dir = (if contactL \<ge> 0 \<and> contactR \<ge> 0
                      then walkDirection (length (contour (locatePalm U h))) contactL contactR
                      else 1)"
  note u = checkForHand_unfold [OF ne assms(3) dir_def]
  show ?thesis
  proof (cases "contactL \<ge> 0 \<and> contactR \<ge> 0")
    case False
    then have "findWrist U (locatePalm U h) contactL contactR dir = Some (- 1, - 1)"
      by (auto simp: findWrist_def)
    with u show ?thesis by simp
  next
    case True
    then have dd: "dir = direction"
      by (simp add: dir_def assms(4))
    have du: "direction = 1 \<or> direction = - 1"
      using walkDirection_unit by (simp add: assms(4))
    then have du': "- direction = 1 \<or> - direction = - 1"
      by auto
    from True findContacts_range [OF assms(3)]
    have r: "0 \<le> contactL" "contactL < n" "0 \<le> contactR" "contactR < n"
      by (auto simp: assms(5))
    then have n: "0 < n" by linarith
    obtain wl where wl: "wristWalk (nearPalm U (locatePalm U h)) n direction contactR contactL = Some wl"
      using wristWalk_defined [OF n du r(3,4) r(1,2)] by blast
    obtain wr where wr: "wristWalk (nearPalm U (locatePalm U h)) n (- direction) contactL contactR = Some wr"
      using wristWalk_defined [OF n du' r(1,2) r(3,4)] by blast
    have "wl = - 1 \<or> wr = - 1"
      using assms(6)
    proof
      assume "\<forall>k<walkLength n direction contactR contactL.
            \<not> nearPalm U (locatePalm U h) (walkSample n direction contactL k)"
      from wristWalk_exhausted [OF n du r(3,4) r(1,2) this] wl show ?thesis by simp
    next
      assume "\<forall>k<walkLength n (- direction) contactL contactR.
            \<not> nearPalm U (locatePalm U h) (walkSample n (- direction) contactR k)"
      from wristWalk_exhausted [OF n du' r(1,2) r(3,4) this] wr show ?thesis by simp
    qed
    then have neg: "wl < 0 \<or> wr < 0" by auto
    have "findWrist U (locatePalm U h) contactL contactR dir = Some (wl, wr)"
      using True wl wr by (simp add: findWrist_def dd assms(5))
    with u neg show ?thesis by auto
  qed
qed

lemma far_locatePalm:
  "contour (locatePalm farExtern sceneHand) = sceneContour"
  "palmCenterXYZ (locatePalm farExtern sceneHand) = ortho (Point2i 150 50)"
  "topLeftPt (locatePalm farExtern sceneHand) = Point2i 0 0"
  by (simp_all add: locatePalm_def Let_def farExtern_def sceneExtern_def sceneHand_def pt_sub_def)

lemma far_points: "k < 60 \<Longrightarrow> 5625 < sqdist (scenePoint k) (Point2i 150 50)"
  by (simp add: scenePoint_def sqdist_def)

lemma dlt_not_dle: "dlt a b \<Longrightarrow> \<not> dle b a"
  by (cases a; cases b) (auto simp: dlt_def dle_def deq_def isnan_def)

lemma far_not_near:
  assumes "0 \<le> i" "i < 60"
  shows "\<not> nearPalm farExtern (locatePalm farExtern sceneHand) i"
proof -
  have k: "nat i < 60" using assms by simp
  have c: "sceneContour ! nat i = scenePoint (nat i)"
    using k by (simp add: sceneContour_def)
  have "dlt (Fin (75 / 1000)) (euclid (ortho (scenePoint (nat i))) (ortho (Point2i 150 50)))"
    using far_points [OF k] by (subst euclid_ortho_gt) simp_all
  then have "\<not> dle (euclid (ortho (scenePoint (nat i))) (ortho (Point2i 150 50))) (Fin (75 / 1000))"
    by (rule dlt_not_dle)
  moreover have "pt_sub (scenePoint (nat i)) (Point2i 0 0) = scenePoint (nat i)"
    by (simp add: pt_sub_def)
  moreover have "wristCenterDistThresh (params (locatePalm farExtern sceneHand)) = Fin (75 / 1000)"
    using locatePalm_landmarks [of farExtern sceneHand]
    by (simp add: sceneHand_def DEFAULT_def)
  moreover have "averageAroundPoint farExtern = (\<lambda>m p s. ortho p)"
    "euclideanDistance farExtern = euclid"
    by (simp_all add: farExtern_def sceneExtern_def)
  ultimately show ?thesis
    by (simp add: nearPalm_def Let_def far_locatePalm c)
qed

lemma far_walk_samples:
  "\<not> nearPalm farExtern (locatePalm farExtern sceneHand) (walkSample 60 s i k)"
  by (rule far_not_near) (simp_all add: walkSample_def)

lemma far_checkForHand:
  "checkForHand farExtern sceneHand = Inr (False, locatePalm farExtern sceneHand)"
proof -
  obtain contactL contactR where
    c: "findContacts farExtern (locatePalm farExtern sceneHand) = (contactL, contactR)"
    by (cases "findContacts farExtern (locatePalm farExtern sceneHand)") simp
  have p: "length (points sceneHand) \<noteq> 0" "num_points sceneHand \<noteq> 0"
    by (simp_all add: sceneHand_def)
  have n: "(60 :: int) = int (length (contour (locatePalm farExtern sceneHand)))"
    by (simp add: far_locatePalm sceneContour_def)
  show ?thesis
    by (rule wristWalk_rejects [OF p c refl n]) (simp add: far_walk_samples)
qed

text \<open>
  C7. The cluster is not empty, \<open>contactL\<close> and \<open>contactR\<close> are the contact points found on
  the contour and \<open>direction\<close> the direction inferred from them. If one of the two inward
  walks tests every point it samples without finding one within
  \<^verbatim>\<open>wristCenterDistThresh\<close> of the palm centre, \<^verbatim>\<open>checkForHand\<close> returns false, and the
  object is as the palm location left it: no wrist point is recorded, no defect is
  examined and no finger list is touched.
\<close>

theorem wrist_walk_exhausted_rejects:
  assumes "length (points h) \<noteq> 0" and "num_points h \<noteq> 0"
    and "findContacts U (locatePalm U h) = (contactL, contactR)"
    and "direction = walkDirection (length (contour (locatePalm U h))) contactL contactR"
    and "n = int (length (contour (locatePalm U h)))"
    and "(\<forall>k<walkLength n direction contactR contactL.
            \<not> nearPalm U (locatePalm U h) (walkSample n direction contactL k)) \<or>
         (\<forall>k<walkLength n (- direction) contactL contactR.
            \<not> nearPalm U (locatePalm U h) (walkSample n (- direction) contactR k))"
  shows "checkForHand U h = Inr (False, locatePalm U h)"
  using assms by (rule wristWalk_rejects)

theorem wrist_walk_exhausted_rejects_witness:
  "checkForHand farExtern sceneHand = Inr (False, locatePalm farExtern sceneHand) \<and>
   fingersXYZ (locatePalm farExtern sceneHand) = [] \<and>
   wristXYZ (locatePalm farExtern sceneHand) = []"
proof -
  obtain contactL contactR where
    c: "findContacts farExtern (locatePalm farExtern sceneHand) = (contactL, contactR)"
    by (cases "findContacts farExtern (locatePalm farExtern sceneHand)") simp
  have p: "length (points sceneHand) \<noteq> 0" "num_points sceneHand \<noteq> 0"
    by (simp_all add: sceneHand_def)
  have n: "(60 :: int) = int (length (contour (locatePalm farExtern sceneHand)))"
    by (simp add: far_locatePalm sceneContour_def)
  have far: "\<not> nearPalm farExtern (locatePalm farExtern sceneHand) (walkSample 60 s i k)" for s i k
    by (rule far_not_near) (simp_all add: walkSample_def)
  have "checkForHand farExtern sceneHand = Inr (False, locatePalm farExtern sceneHand)"
    by (rule wrist_walk_exhausted_rejects [OF p c refl n]) (simp add: far)
  moreover have "fingersXYZ (locatePalm farExtern sceneHand) = []"
    "wristXYZ (locatePalm farExtern sceneHand) = []"
    using locatePalm_landmarks [of farExtern sceneHand] by (simp_all add: sceneHand_def)
  ultimately show ?thesis by simp
qed

section \<open>The evaluation of the synthetic scene\<close>

lemma scene_fields:
  "averageAroundPoint sceneExtern = (\<lambda>m p s. ortho p)"
  "euclideanDistance sceneExtern = euclid"
  "nearestPointOnCluster sceneExtern = (\<lambda>m p d. p)"
  "angleBetweenPoints sceneExtern = (\<lambda>a b c. if b = Point2i 50 50 then Fin 2 else Fin 1)"
  "contourCurvature sceneExtern = (\<lambda>ct i lo hi. Fin 1)"
  "sortDefects sceneExtern = std_sort"
  "handClassifier sceneExtern = constClassifier (9 / 10)"
  "PLANE_ENABLED sceneExtern = False"
  "diameter sceneExtern = (\<lambda>ct. (Fin 10, 0, 0))"
  "pointInImage sceneExtern =
     (\<lambda>m p. 0 \<le> pt_x p \<and> pt_x p < cols m \<and> 0 \<le> pt_y p \<and> pt_y p < rows m)"
  "pointOnEdge sceneExtern =
     (\<lambda>sz p bot side.
          pt_x p < side \<or> size_width sz - side \<le> pt_x p \<or> size_height sz - bot \<le> pt_y p)"
  by (simp_all add: sceneExtern_def)

lemma scene_locatePalm: "locatePalm sceneExtern sceneHand = scenePalmHand"
  by (simp add: locatePalm_def Let_def sceneExtern_def scenePalmHand_def sceneHand_def pt_sub_def)

lemma scenePalm_fields:
  "contour scenePalmHand = sceneContour"
  "indexHull scenePalmHand = sceneHullIdx"
  "palmCenterIJ scenePalmHand = Point2i 50 50"
  "palmCenterXYZ scenePalmHand = ortho (Point2i 50 50)"
  "topLeftPt scenePalmHand = Point2i 0 0"
  "params scenePalmHand = DEFAULT"
  "xyzMap scenePalmHand = sceneMap"
  "fullMapSize scenePalmHand = Size 200 200"
  "touchingEdge scenePalmHand = False"
  "wristXYZ scenePalmHand = []"
  "wristIJ scenePalmHand = []"
  by (simp_all add: scenePalmHand_def sceneHand_def touchingEdge_def)

lemma sceneContour_nth: "k < 60 \<Longrightarrow> sceneContour ! k = scenePoint k"
  by (simp add: sceneContour_def)

lemma sceneContour_length: "length sceneContour = 60"
  by (simp add: sceneContour_def)

lemma scene_computeDefects: "computeDefects sceneExtern scenePalmHand = [Vec4i 10 30 20 0]"
  by (simp add: computeDefects_def scenePalm_fields sceneHullIdx_def sceneExtern_def)

lemma foldl_fixed: "(\<And>j. j \<in> set js \<Longrightarrow> f st j = st) \<Longrightarrow> foldl f st js = st"
  by (induction js) simp_all

lemma scenePoint_y: "pt_y (scenePoint k) \<le> 130"
  by (simp add: scenePoint_def)

lemma scene_contactStep:
  assumes "k < 60"
  shows "contactStep sceneExtern scenePalmHand (0, 0) k = (0, 0)"
proof -
  have "pt_y (sceneContour ! k) \<le> pt_y (sceneContour ! 0)"
    using assms scenePoint_y [of k] by (simp add: sceneContour_nth scenePoint_def)
  then show ?thesis
    by (simp add: contactStep_def Let_def scenePalm_fields)
qed

lemma scene_findContacts: "findContacts sceneExtern scenePalmHand = (0, 0)"
proof -
  have u: "[0..<60] = 0 # [1..<60]"
    by (simp add: upt_rec [of 0])
  have first: "contactStep sceneExtern scenePalmHand (- 1, - 1) 0 = (0, 0)"
    by (simp add: contactStep_def Let_def scenePalm_fields)
  have "foldl (contactStep sceneExtern scenePalmHand) (0, 0) [1..<60] = (0, 0)"
    by (rule foldl_fixed) (simp add: scene_contactStep)
  with first show ?thesis
    by (simp add: findContacts_def scenePalm_fields sceneContour_length u)
qed

lemma dlt_imp_dle: "dlt a b \<Longrightarrow> dle a b"
  by (simp add: dle_def)

lemma scene_nearPalm:
  assumes "0 \<le> i" "i < 60"
  shows "nearPalm sceneExtern scenePalmHand i =
           dle (euclid (ortho (scenePoint (nat i))) (ortho (Point2i 50 50))) (Fin (75 / 1000))"
proof -
  have "nat i < 60" using assms by simp
  then show ?thesis
    by (simp add: nearPalm_def Let_def scenePalm_fields scene_fields sceneContour_nth pt_sub_def
        DEFAULT_def)
qed

lemma scene_near_0: "\<not> nearPalm sceneExtern scenePalmHand 0"
proof -
  have "dlt (Fin (75 / 1000)) (euclid (ortho (Point2i 50 130)) (ortho (Point2i 50 50)))"
    by (subst euclid_ortho_gt) (simp_all add: sqdist_def)
  from dlt_not_dle [OF this] show ?thesis
    by (simp add: scene_nearPalm scenePoint_def)
qed

lemma scene_near_1: "nearPalm sceneExtern scenePalmHand 1"
proof -
  have "dlt (euclid (ortho (Point2i 75 100)) (ortho (Point2i 50 50))) (Fin (75 / 1000))"
    by (subst euclid_ortho_lt) (simp_all add: sqdist_def)
  from dlt_imp_dle [OF this] show ?thesis
    by (simp add: scene_nearPalm scenePoint_def)
qed

lemma scene_near_59: "nearPalm sceneExtern scenePalmHand 59"
proof -
  have "dlt (euclid (ortho (Point2i 25 100)) (ortho (Point2i 50 50))) (Fin (75 / 1000))"
    by (subst euclid_ortho_lt) (simp_all add: sqdist_def)
  from dlt_imp_dle [OF this] show ?thesis
    by (simp add: scene_nearPalm scenePoint_def)
qed

lemma scene_findWrist: "findWrist sceneExtern scenePalmHand 0 0 1 = Some (1, 59)"
proof -
  have l: "wristWalk (nearPalm sceneExtern scenePalmHand) 60 1 0 0 = Some 1"
    using scene_near_0 scene_near_1 by (simp add: wristWalk_far wristWalk_near)
  have r: "wristWalk (nearPalm sceneExtern scenePalmHand) 60 (- 1) 0 0 = Some 59"
    using scene_near_0 scene_near_59 by (simp add: wristWalk_far wristWalk_near)
  from l r show ?thesis
    by (simp add: findWrist_def scenePalm_fields sceneContour_length)
qed

lemma scene_recordWrist:
  "recordWrist sceneExtern scenePalmHand 1 59 =
     (sceneWristHand, euclid (ortho (Point2i 75 100)) (ortho (Point2i 25 100)))"
  by (simp add: recordWrist_def Let_def scenePalm_fields scene_fields sceneContour_nth
      scenePoint_def pt_sub_def sceneWristHand_def)

lemma scene_wristWidth:
  "\<not> dlt (euclid (ortho (Point2i 75 100)) (ortho (Point2i 25 100))) (wristWidthMin DEFAULT)"
  "\<not> dgt (euclid (ortho (Point2i 75 100)) (ortho (Point2i 25 100))) (wristWidthMax DEFAULT)"
proof -
  show "\<not> dlt (euclid (ortho (Point2i 75 100)) (ortho (Point2i 25 100))) (wristWidthMin DEFAULT)"
    unfolding DEFAULT_def by (simp, subst euclid_ortho_lt) (simp_all add: sqdist_def)
  show "\<not> dgt (euclid (ortho (Point2i 75 100)) (ortho (Point2i 25 100))) (wristWidthMax DEFAULT)"
    unfolding DEFAULT_def dgt_def by (simp, subst euclid_ortho_gt) (simp_all add: sqdist_def)
qed

lemma sceneWrist_fields:
  "contour sceneWristHand = sceneContour"
  "indexHull sceneWristHand = sceneHullIdx"
  "palmCenterIJ sceneWristHand = Point2i 50 50"
  "palmCenterXYZ sceneWristHand = ortho (Point2i 50 50)"
  "topLeftPt sceneWristHand = Point2i 0 0"
  "params sceneWristHand = DEFAULT"
  "xyzMap sceneWristHand = sceneMap"
  "fullMapSize sceneWristHand = Size 200 200"
  "fingersIJ sceneWristHand = []"
  "fingersXYZ sceneWristHand = []"
  "defectsIJ sceneWristHand = []"
  "defectsXYZ sceneWristHand = []"
  by (simp_all add: sceneWristHand_def scenePalmHand_def sceneHand_def)

lemma DEFAULT_ints:
  "xyzAverageSize DEFAULT = 9" "bottomEdgeThresh DEFAULT = 10" "sideEdgeThresh DEFAULT = 10"
  "defectMaxYFromCenter DEFAULT = 30" "handUseSVM DEFAULT = True"
  by (simp_all add: DEFAULT_def)

lemma scene_sort: "std_sort cmp [d] = [d]"
  by (simp add: std_sort_def)

lemma scene_defect_facts:
  "dgt (euclid (ortho (Point2i 50 25)) (ortho (Point2i 50 50))) (defectFarCenterMinDist DEFAULT)"
  "dlt (euclid (ortho (Point2i 50 25)) (ortho (Point2i 50 50))) (defectFarCenterMaxDist DEFAULT)"
  "dgt (euclid (ortho (Point2i 35 5)) (ortho (Point2i 65 5))) (defectStartEndMinDist DEFAULT)"
  "\<not> dgt (Fin 1) (defectMaxAngle DEFAULT)"
proof -
  show "dgt (euclid (ortho (Point2i 50 25)) (ortho (Point2i 50 50))) (defectFarCenterMinDist DEFAULT)"
    unfolding DEFAULT_def dgt_def by (simp, subst euclid_ortho_gt) (simp_all add: sqdist_def)
  show "dlt (euclid (ortho (Point2i 50 25)) (ortho (Point2i 50 50))) (defectFarCenterMaxDist DEFAULT)"
    unfolding DEFAULT_def by (simp, subst euclid_ortho_lt) (simp_all add: sqdist_def)
  show "dgt (euclid (ortho (Point2i 35 5)) (ortho (Point2i 65 5))) (defectStartEndMinDist DEFAULT)"
    unfolding DEFAULT_def dgt_def by (simp, subst euclid_ortho_gt) (simp_all add: sqdist_def)
  have "1 \<le> 70 / 100 * pi"
    using pi_ge_two by simp
  then show "\<not> dgt (Fin 1) (defectMaxAngle DEFAULT)"
    by (simp add: DEFAULT_def dgt_def dlt_def)
qed

lemma scene_scanDefects:
  "scanDefects sceneExtern sceneWristHand 1 1 59 [Vec4i 10 30 20 0] =
     \<lparr> fingerTipCands = [10, 30], fingerDefectCands = [20, 20], goodDefects = [0],
       lastEnd = ortho (Point2i 65 5), first = False \<rparr>"
  using scene_defect_facts
  by (simp add: scanDefects_def defectStep_def Let_def underWrist_def sceneWrist_fields
      scene_fields DEFAULT_ints sceneContour_nth scenePoint_def pt_sub_def pt_add_def
      sceneMap_def)


lemma scene_finger_facts:
  "dlt (euclid (ortho (Point2i 35 5)) (ortho (Point2i 50 25))) (fingerLenMax DEFAULT)"
  "dgt (euclid (ortho (Point2i 35 5)) (ortho (Point2i 50 25))) (fingerLenMin DEFAULT)"
  "dlt (euclid (ortho (Point2i 65 5)) (ortho (Point2i 50 25))) (fingerLenMax DEFAULT)"
  "dgt (euclid (ortho (Point2i 65 5)) (ortho (Point2i 50 25))) (fingerLenMin DEFAULT)"
proof -
  show "dlt (euclid (ortho (Point2i 35 5)) (ortho (Point2i 50 25))) (fingerLenMax DEFAULT)"
    unfolding DEFAULT_def by (simp, subst euclid_ortho_lt) (simp_all add: sqdist_def)
  show "dgt (euclid (ortho (Point2i 35 5)) (ortho (Point2i 50 25))) (fingerLenMin DEFAULT)"
    unfolding DEFAULT_def dgt_def by (simp, subst euclid_ortho_gt) (simp_all add: sqdist_def)
  show "dlt (euclid (ortho (Point2i 65 5)) (ortho (Point2i 50 25))) (fingerLenMax DEFAULT)"
    unfolding DEFAULT_def by (simp, subst euclid_ortho_lt) (simp_all add: sqdist_def)
  show "dgt (euclid (ortho (Point2i 65 5)) (ortho (Point2i 50 25))) (fingerLenMin DEFAULT)"
    unfolding DEFAULT_def dgt_def by (simp, subst euclid_ortho_gt) (simp_all add: sqdist_def)
qed

lemma scene_slope_facts:
  "dgt (ddiv (of_int_d 20) (of_int_d 15)) (fingerDefectSlopeMin DEFAULT)"
  "dgt (ddiv (of_int_d 45) (of_int_d 15)) (fingerCenterSlopeMin DEFAULT)"
  "dgt (Fin 2) (centroidDefectFingerAngleMin DEFAULT)"
  "dne (v2 (ortho p)) (Fin 0)"
  "curveInRange DEFAULT (Fin 1) (std_min (Fin 1) (Fin 1))"
proof -
  show "dgt (ddiv (of_int_d 20) (of_int_d 15)) (fingerDefectSlopeMin DEFAULT)"
    by (simp add: DEFAULT_def dgt_def dlt_def ddiv_def of_int_d_def isnan_def)
  show "dgt (ddiv (of_int_d 45) (of_int_d 15)) (fingerCenterSlopeMin DEFAULT)"
    by (simp add: DEFAULT_def dgt_def dlt_def ddiv_def of_int_d_def isnan_def)
  have "40 / 100 * pi < 2"
    using pi_less_4 by simp
  then show "dgt (Fin 2) (centroidDefectFingerAngleMin DEFAULT)"
    by (simp add: DEFAULT_def dgt_def dlt_def)
  show "dne (v2 (ortho p)) (Fin 0)"
    by (simp add: ortho_def dne_def deq_def)
  show "curveInRange DEFAULT (Fin 1) (std_min (Fin 1) (Fin 1))"
    by (simp add: curveInRange_def DEFAULT_def std_min_def dge_def dle_def dlt_def deq_def
        isnan_def)
qed

lemma scene_arc: "pointsToDefect 60 20 10 = 10" "pointsToDefect 60 20 30 = 10"
  by (simp_all add: pointsToDefect_def)

lemma scene_candidateCurves:
  "candidateCurves sceneExtern sceneWristHand tc i p = (Fin 1, Fin 1, Fin 1)"
  by (simp add: candidateCurves_def scene_fields)

lemma scene_selectFingers:
  "selectFingers sceneExtern sceneWristHand [10, 30] [20, 20] = Inr sceneSelection"
proof -
  have u: "[0..<2] = [0, Suc 0]"
    by (simp add: upt_rec)
  show ?thesis
    using scene_finger_facts scene_slope_facts
    by (simp add: selectFingers_def selectStep_def Let_def u sceneWrist_fields scene_fields
        DEFAULT_ints sceneContour_nth sceneContour_length scenePoint_def pt_sub_def pt_add_def
        scene_arc scene_candidateCurves sceneHullIdx_def sceneSelection_def)
qed


lemma scene_tips_apart:
  "\<not> dlt (euclid (ortho (Point2i 35 5)) (ortho (Point2i 65 5))) (fingerDistMin DEFAULT)"
  "\<not> dlt DBL_MAX (fingerDistMin DEFAULT)"
proof -
  show "\<not> dlt (euclid (ortho (Point2i 35 5)) (ortho (Point2i 65 5))) (fingerDistMin DEFAULT)"
    unfolding DEFAULT_def by (simp, subst euclid_ortho_lt) (simp_all add: sqdist_def)
  show "\<not> dlt DBL_MAX (fingerDistMin DEFAULT)"
    by (simp add: DEFAULT_def DBL_MAX_def dlt_def)
qed

lemma scene_not_dropped:
  "\<not> droppedByDedup sceneExtern DEFAULT (fingerTipsXyz sceneSelection) 0"
  "\<not> droppedByDedup sceneExtern DEFAULT (fingerTipsXyz sceneSelection) (Suc 0)"
proof -
  define tips where "tips = fingerTipsXyz sceneSelection"
  have t: "tips ! 0 = ortho (Point2i 35 5)" "tips ! Suc 0 = ortho (Point2i 65 5)" "length tips = 2"
    by (simp_all add: tips_def sceneSelection_def)
  have sk: "skipsNeighbour tips 0 0" "skipsNeighbour tips (Suc 0) 0"
    "skipsNeighbour tips (Suc 0) (Suc 0)"
    by (simp_all add: skipsNeighbour_def t ortho_def deq_def isnan_def)
  have far: "\<not> dlt (euclideanDistance sceneExtern (tips ! 0) (tips ! Suc 0)) (fingerDistMin DEFAULT)"
    using scene_tips_apart(1) by (simp add: t scene_fields)
  have j2: "j < 2 \<Longrightarrow> j = 0 \<or> j = Suc 0" for j :: nat
    by arith
  show "\<not> droppedByDedup sceneExtern DEFAULT (fingerTipsXyz sceneSelection) 0"
    unfolding droppedByDedup_iff tips_def [symmetric] t(3)
    using scene_tips_apart(2) sk far j2 by blast
  show "\<not> droppedByDedup sceneExtern DEFAULT (fingerTipsXyz sceneSelection) (Suc 0)"
    unfolding droppedByDedup_iff tips_def [symmetric] t(3)
    using scene_tips_apart(2) sk j2 by blast
qed

lemma scene_dedupFingers: "dedupFingers sceneExtern sceneWristHand sceneSelection = sceneFingersHand"
proof -
  have u: "[0..<2] = [0, Suc 0]"
    by (simp add: upt_rec)
  have l: "length (fingerTipsXyz sceneSelection) = 2"
    by (simp add: sceneSelection_def)
  have s0: "dedupStep sceneExtern sceneSelection sceneWristHand 0 =
      sceneWristHand \<lparr> fingersIJ := [Point2i 35 5], fingersXYZ := [ortho (Point2i 35 5)],
                        defectsIJ := [Point2i 50 25], defectsXYZ := [ortho (Point2i 50 25)] \<rparr>"
    using scene_not_dropped(1)
    by (simp add: dedupStep_def Let_def sceneWrist_fields scene_fields pt_sub_def)
       (simp add: sceneSelection_def)
  have s1: "dedupStep sceneExtern sceneSelection
       (sceneWristHand \<lparr> fingersIJ := [Point2i 35 5], fingersXYZ := [ortho (Point2i 35 5)],
                        defectsIJ := [Point2i 50 25], defectsXYZ := [ortho (Point2i 50 25)] \<rparr>)
       (Suc 0) = sceneFingersHand"
    using scene_not_dropped(2)
    by (simp add: dedupStep_def Let_def sceneWrist_fields scene_fields pt_sub_def)
       (simp add: sceneSelection_def sceneFingersHand_def)
  show ?thesis
    by (simp add: dedupFingers_def l u s0 s1)
qed

lemma extract_head:
  assumes "extractHandFeatures U hand depth_map top_left img_scale full_wid = Inr v"
  shows "v \<noteq> [] \<and> v ! 0 = sanitizeEntry (of_int_d (getNumFingers hand))"
proof (cases "getNumFingers hand = 0")
  case True
  with assms show ?thesis
    by (auto simp: extractHandFeatures_def Let_def sanitizeEntry_def of_int_d_def isnan_def
        dge_def dle_def dlt_def deq_def FLT_MAX_def)
next
  case False
  with assms obtain ys where
    "v = sanitize ([of_int_d (getNumFingers hand)] @ ys)"
    by (auto simp: extractHandFeatures_def Let_def split: if_splits option.splits)
  then show ?thesis
    by (simp add: sanitize_def)
qed

lemma classify_const:
  assumes "v \<noteq> []" and "v ! 0 = Fin 2"
  shows "classify (constClassifier r) v = Inr (std_max (std_min (Fin 1) (Fin r)) (Fin 0))"
proof -
  have l: "0 < length v" using assms(1) by simp
  have d: "d2i (Fin 2) = Some 2"
    by (simp add: d2i_def trunc_real_def INT_MIN_def INT_MAX_def)
  have n: "\<not> (if 57 < int (length v) then 57 else int (length v)) - 1 < 0"
    using l by simp
  have i: "replicate 4 f ! Suc 0 = f" for f :: "double list \<Rightarrow> double"
    by (simp add: numeral_eq_Suc)
  show ?thesis
    using l n
    by (simp add: classify_def constClassifier_def Let_def assms(2) d getSVMIdx_def NUM_SVMS_def i)
qed

lemma d2i_euclid_small:
  assumes "sqdist p q < 1000000"
  shows "d2i (euclid (ortho p) (ortho q)) = Some 0"
proof -
  have "0 \<le> sqdist p q"
    by (simp add: sqdist_def)
  then have a: "0 \<le> sqrt (of_int (sqdist p q)) / 1000"
    by simp
  have "sqrt (of_int (sqdist p q)) < 1000"
    using assms by (subst sqrt_less_iff) simp_all
  then have b: "sqrt (of_int (sqdist p q)) / 1000 < 1"
    by simp
  from d2i_small [OF a b] show ?thesis
    by (simp add: euclid_ortho_sq)
qed

lemma sceneFingers_fields:
  "fingersIJ sceneFingersHand = [Point2i 35 5, Point2i 65 5]"
  "fingersXYZ sceneFingersHand = [ortho (Point2i 35 5), ortho (Point2i 65 5)]"
  "defectsIJ sceneFingersHand = [Point2i 50 25, Point2i 50 25]"
  "defectsXYZ sceneFingersHand = [ortho (Point2i 50 25), ortho (Point2i 50 25)]"
  "wristXYZ sceneFingersHand = [ortho (Point2i 75 100), ortho (Point2i 25 100)]"
  "contour sceneFingersHand = sceneContour"
  "params sceneFingersHand = DEFAULT"
  by (simp_all add: sceneFingersHand_def sceneWristHand_def scenePalmHand_def sceneHand_def)

lemma scene_extract:
  "\<exists>v. extractHandFeatures sceneExtern (sceneFingersHand \<lparr> isHand := True \<rparr>)
          (xyzMap (sceneFingersHand \<lparr> isHand := True \<rparr>))
          (topLeftPt (sceneFingersHand \<lparr> isHand := True \<rparr>)) (Fin 1)
          (size_width (fullMapSize (sceneFingersHand \<lparr> isHand := True \<rparr>))) = Inr v \<and>
       v \<noteq> [] \<and> v ! 0 = Fin 2"
proof -
  define g where "g = sceneFingersHand \<lparr> isHand := True \<rparr>"
  have f: "fingersXYZ g = [ortho (Point2i 35 5), ortho (Point2i 65 5)]"
    "defectsXYZ g = [ortho (Point2i 50 25), ortho (Point2i 50 25)]"
    by (simp_all add: g_def sceneFingers_fields)
  have b: "featureReadsInBounds sceneExtern g"
    by (simp add: featureReadsInBounds_def g_def sceneFingers_fields scene_fields
        sceneContour_length)
  have t: "i < length (fingersXYZ g) \<Longrightarrow>
           d2i (euclideanDistance sceneExtern (fingersXYZ g ! i) (defectsXYZ g ! i)) = Some 0" for i
  proof -
    assume "i < length (fingersXYZ g)"
    then have "i = 0 \<or> i = Suc 0"
      by (auto simp: f)
    then show ?thesis
      by (auto simp: f scene_fields intro!: d2i_euclid_small simp: sqdist_def)
  qed
  have s: "sortFingerOrder (fingerLengths sceneExtern g) \<noteq> None"
    using sortFingerOrder_equal_trunc [of g sceneExtern 0] t by simp
  obtain v where v: "extractHandFeatures sceneExtern g (xyzMap g) (topLeftPt g) (Fin 1)
          (size_width (fullMapSize g)) = Inr v"
    using extract_returns [of g sceneExtern] b s by blast
  have n: "getNumFingers g = 2"
    by (simp add: getNumFingers_def f)
  have "sanitizeEntry (of_int_d 2) = Fin 2"
    by (simp add: sanitizeEntry_def of_int_d_def isnan_def dge_def dle_def dlt_def deq_def
        FLT_MAX_def)
  with extract_head [OF v] n have "v \<noteq> [] \<and> v ! 0 = Fin 2"
    by simp
  with v show ?thesis
    unfolding g_def by blast
qed

lemma scene_acceptanceGate:
  "acceptanceGate sceneExtern sceneFingersHand = Inr (True, sceneAcceptedHand)"
proof -
  obtain v where v: "extractHandFeatures sceneExtern (sceneFingersHand \<lparr> isHand := True \<rparr>)
          (xyzMap (sceneFingersHand \<lparr> isHand := True \<rparr>))
          (topLeftPt (sceneFingersHand \<lparr> isHand := True \<rparr>)) (Fin 1)
          (size_width (fullMapSize (sceneFingersHand \<lparr> isHand := True \<rparr>))) = Inr v"
    and h: "v \<noteq> []" "v ! 0 = Fin 2"
    using scene_extract by blast
  have c: "classify (constClassifier (9 / 10)) v = Inr (Fin (9 / 10))"
    using classify_const [OF h, of "9 / 10"]
    by (simp add: std_max_def std_min_def dlt_def)
  have t: "isTrained (constClassifier (9 / 10))"
    by (simp add: isTrained_def constClassifier_def)
  have conf: "\<not> dlt (Fin (9 / 10)) (handSVMConfidenceThresh DEFAULT)"
    by (simp add: DEFAULT_def dlt_def)
  show ?thesis
    unfolding acceptanceGate_def Let_def
    using v c t conf
    by (simp add: sceneFingers_fields scene_fields DEFAULT_ints sceneAcceptedHand_def)
qed

lemma scene_detectFingers:
  "detectFingers sceneExtern sceneWristHand [Vec4i 10 30 20 0] 1 1 59 =
     Inr (True, sceneAcceptedHand)"
  unfolding detectFingers_def Let_def
  by (simp add: scene_fields scene_sort scene_scanDefects scene_selectFingers
      scene_dedupFingers sceneFingers_fields scene_acceptanceGate)

lemma scene_checkForHand: "checkForHand sceneExtern sceneHand = Inr (True, sceneAcceptedHand)"
proof -
  have ne: "\<not> (length (points sceneHand) = 0 \<or> num_points sceneHand = 0)"
    by (simp add: sceneHand_def)
  have c: "findContacts sceneExtern (locatePalm sceneExtern sceneHand) = (0, 0)"
    by (simp add: scene_locatePalm scene_findContacts)
  have d: "(1::int) = (if (0::int) \<ge> 0 \<and> (0::int) \<ge> 0
                      then walkDirection (length (contour (locatePalm sceneExtern sceneHand))) 0 0
                      else 1)"
    by (simp add: walkDirection_def scene_locatePalm scenePalm_fields sceneContour_length)
  have w: "params sceneWristHand = DEFAULT"
    by (simp add: sceneWrist_fields)
  show ?thesis
    using scene_wristWidth
    by (simp add: checkForHand_unfold [OF ne c d] scene_locatePalm scene_findWrist
        scene_recordWrist w scene_computeDefects scene_detectFingers)
qed

section \<open>Acceptance and the landmark lists\<close>

lemma sceneHand_aligned: "landmarksAligned sceneHand"
  by (simp add: landmarksAligned_def sceneHand_def)

lemma sceneAccepted_lists:
  "fingersIJ sceneAcceptedHand = [Point2i 35 5, Point2i 65 5]"
  "fingersXYZ sceneAcceptedHand = [ortho (Point2i 35 5), ortho (Point2i 65 5)]"
  "defectsIJ sceneAcceptedHand = [Point2i 50 25, Point2i 50 25]"
  "defectsXYZ sceneAcceptedHand = [ortho (Point2i 50 25), ortho (Point2i 50 25)]"
  by (simp_all add: sceneAcceptedHand_def sceneFingers_fields)

text \<open>
  C4. When \<^verbatim>\<open>checkForHand\<close> returns true on an object whose landmark lists had one
  length at the start (a new object has them empty), the finger count of the object is
  between 1 and 6. The gate returns false, and leaves the object as it is, whenever the
  finger list it tests has no entry or more than 6: the classifier is not consulted.
\<close>

theorem accepted_finger_count:
  "(checkForHand U h = Inr (True, h') \<and> landmarksAligned h \<longrightarrow>
      1 \<le> getNumFingers h' \<and> getNumFingers h' \<le> 6) \<and>
   (length (fingersIJ g) < 1 \<or> 6 < length (fingersIJ g) \<longrightarrow>
      acceptanceGate U g = Inr (False, g))"
proof -
  have "1 \<le> getNumFingers h' \<and> getNumFingers h' \<le> 6"
    if "checkForHand U h = Inr (True, h')" "landmarksAligned h"
    using checkForHand_result [OF that]
    by (simp add: landmarksAligned_def getNumFingers_def)
  then show ?thesis
    using acceptanceGate_rejects [of g U] by blast
qed

theorem accepted_finger_count_witness:
  "checkForHand sceneExtern sceneHand = Inr (True, sceneAcceptedHand) \<and>
   landmarksAligned sceneHand \<and>
   getNumFingers sceneAcceptedHand = 2 \<and>
   1 \<le> getNumFingers sceneAcceptedHand \<and> getNumFingers sceneAcceptedHand \<le> 6 \<and>
   length (fingersIJ sceneWristHand) < 1 \<and>
   acceptanceGate sceneExtern sceneWristHand = Inr (False, sceneWristHand)"
proof -
  have n: "getNumFingers sceneAcceptedHand = 2"
    by (simp add: getNumFingers_def sceneAccepted_lists)
  have z: "length (fingersIJ sceneWristHand) < 1"
    by (simp add: sceneWrist_fields)
  from accepted_finger_count
    [of sceneExtern sceneHand sceneAcceptedHand sceneWristHand]
    scene_checkForHand sceneHand_aligned n z
  show ?thesis
    by simp
qed

text \<open>
  C10. An evaluation that starts with the four landmark lists of one length (a new object
  has them empty) and returns, with either result, leaves \<^verbatim>\<open>fingersIJ\<close>,
  \<^verbatim>\<open>fingersXYZ\<close>, \<^verbatim>\<open>defectsIJ\<close> and \<^verbatim>\<open>defectsXYZ\<close> with one length, which is what
  \<^verbatim>\<open>getNumFingers\<close> answers. The evaluation never loops forever.
\<close>

theorem landmark_lists_one_length:
  "checkForHand U h \<noteq> Inl LoopDiverges \<and>
   (landmarksAligned h \<and> checkForHand U h = Inr (b, h') \<longrightarrow>
      length (fingersIJ h') = length (fingersXYZ h') \<and>
      length (defectsIJ h') = length (fingersXYZ h') \<and>
      length (defectsXYZ h') = length (fingersXYZ h') \<and>
      getNumFingers h' = int (length (fingersIJ h')))"
proof -
  have "length (fingersIJ h') = length (fingersXYZ h') \<and>
      length (defectsIJ h') = length (fingersXYZ h') \<and>
      length (defectsXYZ h') = length (fingersXYZ h') \<and>
      getNumFingers h' = int (length (fingersIJ h'))"
    if "landmarksAligned h" "checkForHand U h = Inr (b, h')"
    using checkForHand_result [OF that(2,1)]
    by (simp add: landmarksAligned_def getNumFingers_def)
  then show ?thesis
    using checkForHand_terminates [of U h] by blast
qed

theorem landmark_lists_one_length_witness:
  "landmarksAligned sceneHand \<and>
   checkForHand sceneExtern sceneHand = Inr (True, sceneAcceptedHand) \<and>
   length (fingersIJ sceneAcceptedHand) = 2 \<and>
   length (fingersXYZ sceneAcceptedHand) = 2 \<and>
   length (defectsIJ sceneAcceptedHand) = 2 \<and>
   length (defectsXYZ sceneAcceptedHand) = 2 \<and>
   getNumFingers sceneAcceptedHand = int (length (fingersIJ sceneAcceptedHand)) \<and>
   checkForHand farExtern sceneHand = Inr (False, locatePalm farExtern sceneHand) \<and>
   length (fingersIJ (locatePalm farExtern sceneHand)) =
     length (fingersXYZ (locatePalm farExtern sceneHand))"
proof -
  note rej = far_checkForHand
  from landmark_lists_one_length [of sceneExtern sceneHand True sceneAcceptedHand]
    landmark_lists_one_length [of farExtern sceneHand False "locatePalm farExtern sceneHand"]
    scene_checkForHand sceneHand_aligned rej
  show ?thesis
    by (simp add: sceneAccepted_lists)
qed

end
